theory Spec2Isabelle
  imports Complex_Main
begin

section \<open>GitHubCopilotAuthManager: data model\<close>

text \<open>
  A shallow embedding of \<^verbatim>\<open>githubCopilotAuthManager.ts\<close>. The manager object and the
  part of the outside world it acts on (the token file, the pending timers, the clock)
  form one \<open>state\<close> record; every asynchronous method becomes a function that takes the
  replies the outside world gives to its awaited calls and returns the settled outcome of
  its promise together with the new state. Console output is not modelled. JSON numbers are
  taken to be integers (seconds), as GitHub sends them.
\<close>

text \<open>The \<^verbatim>\<open>Error\<close> values thrown by the class, one constructor per message.\<close>

datatype error =
    PollingCancelled           \<comment> \<open>'Authentication polling was cancelled'\<close>
  | InvalidOAuthResponse       \<comment> \<open>'Invalid response from GitHub OAuth'\<close>
  | CodeExpired                \<comment> \<open>'Authentication code expired. Please try again.'\<close>
  | AccessDenied               \<comment> \<open>'Authentication was denied. Please try again.'\<close>
  | OAuthError string          \<comment> \<open>'OAuth error: ' + (error_description || error)\<close>
  | AuthTimeout                \<comment> \<open>'Authentication timeout. Please try again.'\<close>
  | CopilotTokenNotAvailable   \<comment> \<open>'Copilot token not available'\<close>
  | RefreshFailed              \<comment> \<open>'Failed to refresh expired Copilot token'\<close>
  | GitHubTokenNotAvailable    \<comment> \<open>'GitHub token not available'\<close>
  | DeviceCodeFailed           \<comment> \<open>'Failed to get device code: ...'\<close>
  | CopilotTokenFailed         \<comment> \<open>'Failed to get Copilot token: ...'\<close>
  | VerifyFailed               \<comment> \<open>'Failed to verify GitHub user: ...'\<close>
  | FetchRejected              \<comment> \<open>fetch() rejected (transport failure)\<close>
  | JsonSyntaxError            \<comment> \<open>response.json() rejected outside pollAccessToken's try\<close>
  | JsTypeError                \<comment> \<open>property read on a JSON null\<close>
  | FsError                    \<comment> \<open>a node:fs call rejected\<close>

text \<open>
  The settled value of a promise. \<open>Unsettled\<close> is the promise of a call whose awaited
  reply never arrives (the scripted replies ran out).
\<close>

datatype 'a outcome = Resolved 'a | Rejected error | Unsettled

text \<open>
  What an awaited \<^verbatim>\<open>fetch\<close> gives: a rejection, or a response with its \<^verbatim>\<open>ok\<close> flag
  and its body, \<open>None\<close> when the body does not parse as JSON.
\<close>

datatype 'a reply = NetworkFailure | Response bool "'a option"

record DeviceCodeResponse =
  device_code :: string
  user_code :: string
  verification_uri :: string
  expires_in :: int
  interval :: int

record CopilotTokenResponse =
  expires_at :: int
  refresh_in :: int
  token :: string

text \<open>
  The parsed body of a poll response: JSON \<^verbatim>\<open>null\<close>, or an object read through its fields
  \<^verbatim>\<open>error\<close>, \<^verbatim>\<open>error_description\<close> and \<^verbatim>\<open>access_token\<close> (\<open>None\<close> for an absent field).
\<close>

datatype poll_json = JsonNull | JsonObject "string option" "string option" "string option"

text \<open>What a \<^verbatim>\<open>writeFile\<close> followed by \<^verbatim>\<open>chmod\<close> does.\<close>

datatype fs_reply = Written | WriteFileFails | ChmodFails

datatype endpoint = ApiHead | DeviceCode | AccessToken | User | CopilotToken

text \<open>The externally visible actions, in the order the code performs them.\<close>

datatype effect =
    Fetch endpoint
  | Sleep int                  \<comment> \<open>this.sleep(ms)\<close>
  | WriteFile string           \<comment> \<open>fs.writeFile(GITHUB_TOKEN_PATH, content) that succeeded\<close>
  | SetTimeout nat int         \<comment> \<open>handle and delay in ms\<close>
  | ClearTimeout nat

record state =
  providedGithubToken :: "string option"
  githubToken :: "string option"
  copilotToken :: "string option"
  copilotTokenExpiresAt :: "int option"
  refreshTimeout :: "nat option"
  verbose :: bool
  pollingCancelled :: bool
  isInitialized :: bool
  initializePromise :: "nat option"
  tokenFile :: "string option"       \<comment> \<open>content of GITHUB_TOKEN_PATH, \<open>None\<close> when there is no such file\<close>
  timers :: "(nat \<times> int) list"       \<comment> \<open>pending refresh timers: handle and due time in ms\<close>
  nextHandle :: nat
  clock :: int                       \<comment> \<open>Date.now(), in ms\<close>
  started :: nat                     \<comment> \<open>number of doInitialize() executions started\<close>
  settled :: "nat \<Rightarrow> unit outcome"    \<comment> \<open>outcome of each doInitialize() promise\<close>
  trace :: "effect list"

definition emit :: "effect list \<Rightarrow> state \<Rightarrow> state" where
  "emit es st = st\<lparr>trace := trace st @ es\<rparr>"

text \<open>JavaScript truthiness of a \<^verbatim>\<open>string | null | undefined\<close> value.\<close>

fun truthy :: "string option \<Rightarrow> bool" where
  "truthy None = False"
| "truthy (Some s) = (s \<noteq> [])"

text \<open>The string held by such a value, read where the code has just found it truthy.\<close>

fun str :: "string option \<Rightarrow> string" where
  "str None = []"
| "str (Some s) = s"

section \<open>destroy\<close>

definition clearTimeout :: "nat \<Rightarrow> state \<Rightarrow> state" where
  "clearTimeout h st = emit [ClearTimeout h] (st\<lparr>timers := filter (\<lambda>(k, due). k \<noteq> h) (timers st)\<rparr>)"

definition destroy :: "state \<Rightarrow> state" where
  "destroy st =
     (let st1 = st\<lparr>pollingCancelled := True\<rparr>
      in case refreshTimeout st1 of
           None \<Rightarrow> st1
         | Some h \<Rightarrow> (clearTimeout h st1)\<lparr>refreshTimeout := None\<rparr>)"

section \<open>pollAccessToken\<close>

text \<open>
  \<^verbatim>\<open>Math.ceil(expires_in / (interval + 1))\<close> is a double: a division by zero gives an
  infinity or NaN, which the loop condition \<^verbatim>\<open>attempts < maxAttempts\<close> then compares.
\<close>

datatype js_number = Num int | PosInfinity | NegInfinity | NaN

definition ceil_div :: "int \<Rightarrow> int \<Rightarrow> js_number" where
  "ceil_div a b =
     (if b = 0 then (if 0 < a then PosInfinity else if a < 0 then NegInfinity else NaN)
      else Num (- ((- a) div b)))"

fun js_less :: "int \<Rightarrow> js_number \<Rightarrow> bool" where
  "js_less a (Num n) = (a < n)"
| "js_less a PosInfinity = True"
| "js_less a NegInfinity = False"
| "js_less a NaN = False"

definition sleepDuration :: "DeviceCodeResponse \<Rightarrow> int" where
  "sleepDuration dc = (interval dc + 1) * 1000"

definition maxAttempts :: "DeviceCodeResponse \<Rightarrow> js_number" where
  "maxAttempts dc = ceil_div (expires_in dc) (interval dc + 1)"

text \<open>What one iteration of the loop does with the reply to its fetch.\<close>

datatype poll_action = SleepThenContinue int | Return string | Throw error

fun handleReply :: "int \<Rightarrow> poll_json reply \<Rightarrow> poll_action" where
  "handleReply sd NetworkFailure = Throw FetchRejected"
| "handleReply sd (Response ok None) =
     (if \<not> ok then SleepThenContinue sd else Throw InvalidOAuthResponse)"
| "handleReply sd (Response ok (Some JsonNull)) = Throw JsTypeError"
| "handleReply sd (Response ok (Some (JsonObject err descr tok))) =
     (if truthy err then
        (if err = Some ''authorization_pending'' then SleepThenContinue sd
         else if err = Some ''slow_down'' then SleepThenContinue (sd * 2)
         else if err = Some ''expired_token'' then Throw CodeExpired
         else if err = Some ''access_denied'' then Throw AccessDenied
         else Throw (OAuthError (if truthy descr then str descr else str err)))
      else if truthy tok then Return (str tok)
      else SleepThenContinue sd)"

text \<open>
  One element of the script of a poll loop, for one iteration: the reply to the iteration's
  fetch, and whether \<^verbatim>\<open>destroy()\<close> runs while the iteration is suspended, in its fetch or in
  the sleep that follows. The next iteration's check is the first to see it.
\<close>

type_synonym poll_step = "poll_json reply \<times> bool"

definition interrupted :: "bool \<Rightarrow> state \<Rightarrow> state" where
  "interrupted d st = (if d then destroy st else st)"

fun pollLoop :: "int \<Rightarrow> js_number \<Rightarrow> int \<Rightarrow> state \<Rightarrow> poll_step list \<Rightarrow> string outcome \<times> state" where
  "pollLoop sd mx attempts st [] =
     (if \<not> js_less attempts mx then (Rejected AuthTimeout, st)
      else if pollingCancelled st then (Rejected PollingCancelled, st)
      else (Unsettled, emit [Fetch AccessToken] st))"
| "pollLoop sd mx attempts st ((r, d) # rest) =
     (if \<not> js_less attempts mx then (Rejected AuthTimeout, st)
      else if pollingCancelled st then (Rejected PollingCancelled, st)
      else
        (case handleReply sd r of
           SleepThenContinue ms \<Rightarrow>
             pollLoop sd mx (attempts + 1) (interrupted d (emit [Fetch AccessToken, Sleep ms] st)) rest
         | Return tok \<Rightarrow> (Resolved tok, interrupted d (emit [Fetch AccessToken] st))
         | Throw e \<Rightarrow> (Rejected e, interrupted d (emit [Fetch AccessToken] st))))"

text \<open>\<^verbatim>\<open>destroy()\<close> runs (or not) while the call with result \<open>m\<close> is awaited.\<close>

definition meanwhile :: "bool \<Rightarrow> 'a outcome \<times> state \<Rightarrow> 'a outcome \<times> state" where
  "meanwhile d m = (case m of (out, st) \<Rightarrow> (out, interrupted d st))"

definition pollAccessToken :: "DeviceCodeResponse \<Rightarrow> state \<Rightarrow> poll_step list \<Rightarrow> string outcome \<times> state" where
  "pollAccessToken dc st steps = pollLoop (sleepDuration dc) (maxAttempts dc) 0 st steps"

section \<open>The token file\<close>

text \<open>
  The file is read as UTF-8 and a \<open>string\<close> holds its bytes. \<^verbatim>\<open>String.prototype.trim\<close> strips
  the white space and line terminators of ECMAScript; these are their UTF-8 encodings: U+0009
  to U+000D, U+0020, U+00A0, U+1680, U+2000 to U+200A, U+2028, U+2029, U+202F, U+205F, U+3000
  and U+FEFF.
\<close>

definition whiteSpace :: "string list" where
  "whiteSpace =
     [[CHR 0x09], [CHR 0x0A], [CHR 0x0B], [CHR 0x0C], [CHR 0x0D], [CHR 0x20],
      [CHR 0xC2, CHR 0xA0],
      [CHR 0xE1, CHR 0x9A, CHR 0x80],
      [CHR 0xE2, CHR 0x80, CHR 0x80], [CHR 0xE2, CHR 0x80, CHR 0x81],
      [CHR 0xE2, CHR 0x80, CHR 0x82], [CHR 0xE2, CHR 0x80, CHR 0x83],
      [CHR 0xE2, CHR 0x80, CHR 0x84], [CHR 0xE2, CHR 0x80, CHR 0x85],
      [CHR 0xE2, CHR 0x80, CHR 0x86], [CHR 0xE2, CHR 0x80, CHR 0x87],
      [CHR 0xE2, CHR 0x80, CHR 0x88], [CHR 0xE2, CHR 0x80, CHR 0x89],
      [CHR 0xE2, CHR 0x80, CHR 0x8A],
      [CHR 0xE2, CHR 0x80, CHR 0xA8], [CHR 0xE2, CHR 0x80, CHR 0xA9],
      [CHR 0xE2, CHR 0x80, CHR 0xAF],
      [CHR 0xE2, CHR 0x81, CHR 0x9F],
      [CHR 0xE3, CHR 0x80, CHR 0x80],
      [CHR 0xEF, CHR 0xBB, CHR 0xBF]]"

text \<open>The number of bytes of the first of the codes \<open>ws\<close> that \<open>s\<close> starts with, 0 if there is none.\<close>

fun wsWidth :: "string list \<Rightarrow> string \<Rightarrow> nat" where
  "wsWidth [] s = 0"
| "wsWidth (w # ws) s = (if w \<noteq> [] \<and> take (length w) s = w then length w else wsWidth ws s)"

function stripLeading :: "string list \<Rightarrow> string \<Rightarrow> string" where
  "stripLeading ws s = (if wsWidth ws s = 0 then s else stripLeading ws (drop (wsWidth ws s) s))"
  by pat_completeness auto
termination
proof (relation "measure (\<lambda>(ws, s). length s)")
  show "wf (measure (\<lambda>(ws, s). length s))" by simp
next
  fix ws :: "string list" and s :: string
  assume w: "wsWidth ws s \<noteq> 0"
  have "wsWidth ws s \<noteq> 0 \<Longrightarrow> s \<noteq> []" by (induction ws) (auto split: if_splits)
  with w have "s \<noteq> []" by simp
  with w show "((ws, drop (wsWidth ws s) s), (ws, s)) \<in> measure (\<lambda>(ws, s). length s)" by simp
qed

declare stripLeading.simps [simp del]

definition trim :: "string \<Rightarrow> string" where
  "trim s = rev (stripLeading (map rev whiteSpace) (rev (stripLeading whiteSpace s)))"

definition readGithubToken :: "state \<Rightarrow> string option" where
  "readGithubToken st =
     (case tokenFile st of
        None \<Rightarrow> None
      | Some content \<Rightarrow> (if trim content = [] then None else Some (trim content)))"

fun writeGithubToken :: "string \<Rightarrow> fs_reply \<Rightarrow> state \<Rightarrow> unit outcome \<times> state" where
  "writeGithubToken content Written st =
     (Resolved (), emit [WriteFile content] (st\<lparr>tokenFile := Some content\<rparr>))"
| "writeGithubToken content WriteFileFails st = (Rejected FsError, st)"
| "writeGithubToken content ChmodFails st =
     (Rejected FsError, emit [WriteFile content] (st\<lparr>tokenFile := Some content\<rparr>))"

text \<open>
  The replies of the outside world to the awaited calls of one \<^verbatim>\<open>doInitialize()\<close>, one
  field per call site, and for each await of setupGitHubToken whether \<^verbatim>\<open>destroy()\<close> runs
  while the call is suspended there.
\<close>

record environment =
  mkdirOk :: bool                                  \<comment> \<open>fs.mkdir in ensurePaths\<close>
  createReply :: fs_reply                          \<comment> \<open>creating the empty token file\<close>
  destroyDuringRead :: bool                        \<comment> \<open>destroy() during readGithubToken()\<close>
  storedUserReply :: "string reply"                \<comment> \<open>GET /user for the stored token\<close>
  destroyDuringVerify :: bool                      \<comment> \<open>destroy() during that verifyGitHubUser()\<close>
  clearReply :: fs_reply                           \<comment> \<open>writeGithubToken('')\<close>
  destroyDuringClear :: bool                       \<comment> \<open>destroy() during writeGithubToken('')\<close>
  deviceCodeReply :: "DeviceCodeResponse reply"
  destroyDuringDeviceCode :: bool                  \<comment> \<open>destroy() during getDeviceCode()\<close>
  pollSteps :: "poll_step list"
  saveReply :: fs_reply                            \<comment> \<open>writeGithubToken(token)\<close>
  destroyDuringSave :: bool                        \<comment> \<open>destroy() during writeGithubToken(token)\<close>
  userReply :: "string reply"                      \<comment> \<open>GET /user for the new token\<close>
  destroyDuringNewVerify :: bool                   \<comment> \<open>destroy() during the last verifyGitHubUser()\<close>
  copilotReply :: "CopilotTokenResponse reply"

text \<open>\<^verbatim>\<open>destroy()\<close> runs between the reset of the flag and the start of the poll loop.\<close>

definition destroyedBeforePolling :: "environment \<Rightarrow> bool" where
  "destroyedBeforePolling env =
     (destroyDuringRead env \<or> destroyDuringVerify env \<or> destroyDuringClear env
      \<or> destroyDuringDeviceCode env)"

text \<open>\<^verbatim>\<open>await m\<close> followed by the rest of the async function.\<close>

definition await :: "'a outcome \<times> state \<Rightarrow> ('a \<Rightarrow> state \<Rightarrow> 'b outcome \<times> state) \<Rightarrow> 'b outcome \<times> state" where
  "await m f =
     (case m of
        (Resolved x, st) \<Rightarrow> f x st
      | (Rejected e, st) \<Rightarrow> (Rejected e, st)
      | (Unsettled, st) \<Rightarrow> (Unsettled, st))"

definition ensurePaths :: "environment \<Rightarrow> state \<Rightarrow> unit outcome \<times> state" where
  "ensurePaths env st =
     (if \<not> mkdirOk env then (Rejected FsError, st)
      else case tokenFile st of
             Some content \<Rightarrow> (Resolved (), st)
           | None \<Rightarrow> writeGithubToken [] (createReply env) st)"

section \<open>The network calls\<close>

fun getDeviceCode :: "DeviceCodeResponse reply \<Rightarrow> state \<Rightarrow> DeviceCodeResponse outcome \<times> state" where
  "getDeviceCode NetworkFailure st = (Rejected FetchRejected, emit [Fetch DeviceCode] st)"
| "getDeviceCode (Response ok body) st =
     (if \<not> ok then (Rejected DeviceCodeFailed, emit [Fetch DeviceCode] st)
      else case body of
             None \<Rightarrow> (Rejected JsonSyntaxError, emit [Fetch DeviceCode] st)
           | Some dc \<Rightarrow> (Resolved dc, emit [Fetch DeviceCode] st))"

fun fetchCopilotToken :: "CopilotTokenResponse reply \<Rightarrow> state \<Rightarrow> CopilotTokenResponse outcome \<times> state" where
  "fetchCopilotToken NetworkFailure st = (Rejected FetchRejected, emit [Fetch CopilotToken] st)"
| "fetchCopilotToken (Response ok body) st =
     (if \<not> ok then (Rejected CopilotTokenFailed, emit [Fetch CopilotToken] st)
      else case body of
             None \<Rightarrow> (Rejected JsonSyntaxError, emit [Fetch CopilotToken] st)
           | Some tr \<Rightarrow> (Resolved tr, emit [Fetch CopilotToken] st))"

definition getCopilotTokenFromAPI :: "CopilotTokenResponse reply \<Rightarrow> state \<Rightarrow> CopilotTokenResponse outcome \<times> state" where
  "getCopilotTokenFromAPI r st =
     (if \<not> truthy (githubToken st) then (Rejected GitHubTokenNotAvailable, st)
      else fetchCopilotToken r st)"

fun fetchUser :: "string reply \<Rightarrow> state \<Rightarrow> unit outcome \<times> state" where
  "fetchUser NetworkFailure st = (Rejected FetchRejected, emit [Fetch User] st)"
| "fetchUser (Response ok body) st =
     (if \<not> ok then (Rejected VerifyFailed, emit [Fetch User] st)
      else case body of
             None \<Rightarrow> (Rejected JsonSyntaxError, emit [Fetch User] st)
           | Some login \<Rightarrow> (Resolved (), emit [Fetch User] st))"

definition verifyGitHubUser :: "string reply \<Rightarrow> state \<Rightarrow> unit outcome \<times> state" where
  "verifyGitHubUser r st =
     (if \<not> truthy (githubToken st) then (Rejected GitHubTokenNotAvailable, st)
      else fetchUser r st)"

section \<open>The refresh timer\<close>

text \<open>
  The delay a Node.js timer runs with: a delay above \<^verbatim>\<open>2147483647\<close> ms, or below 1 ms, is
  set to 1 ms.
\<close>

definition nodeDelay :: "int \<Rightarrow> int" where
  "nodeDelay delay = (if delay < 1 \<or> 2147483647 < delay then 1 else delay)"

definition setTimeout :: "int \<Rightarrow> state \<Rightarrow> state" where
  "setTimeout delay st =
     (let h = nextHandle st
      in (emit [SetTimeout h delay] st)
           \<lparr>timers := timers st @ [(h, clock st + nodeDelay delay)], nextHandle := h + 1,
            refreshTimeout := Some h\<rparr>)"

definition setupAutoRefresh :: "CopilotTokenResponse \<Rightarrow> state \<Rightarrow> state" where
  "setupAutoRefresh tokenResponse st =
     (let refreshInterval = (refresh_in tokenResponse - 60) * 1000
      in if refreshInterval > 0 then setTimeout refreshInterval st else st)"

definition storeCopilotToken :: "CopilotTokenResponse \<Rightarrow> state \<Rightarrow> state" where
  "storeCopilotToken tr st =
     st\<lparr>copilotToken := Some (token tr), copilotTokenExpiresAt := Some (expires_at tr)\<rparr>"

text \<open>The callback that setupAutoRefresh hands to \<^verbatim>\<open>setTimeout\<close>; its errors are only logged.\<close>

definition refreshCallback :: "CopilotTokenResponse reply \<Rightarrow> state \<Rightarrow> state" where
  "refreshCallback r st =
     (case getCopilotTokenFromAPI r st of
        (Resolved tr, st1) \<Rightarrow> setupAutoRefresh tr (storeCopilotToken tr st1)
      | (Rejected e, st1) \<Rightarrow> st1
      | (Unsettled, st1) \<Rightarrow> st1)"

definition setupCopilotToken :: "CopilotTokenResponse reply \<Rightarrow> state \<Rightarrow> unit outcome \<times> state" where
  "setupCopilotToken r st =
     await (getCopilotTokenFromAPI r st)
       (\<lambda>tr st1. (Resolved (), setupAutoRefresh tr (storeCopilotToken tr st1)))"

section \<open>setupGitHubToken, doInitialize, initialize\<close>

text \<open>Lines 286 to 323 of setupGitHubToken: the OAuth device flow.\<close>

definition oauthFlow :: "environment \<Rightarrow> state \<Rightarrow> unit outcome \<times> state" where
  "oauthFlow env st =
     await (meanwhile (destroyDuringDeviceCode env) (getDeviceCode (deviceCodeReply env) st))
       (\<lambda>deviceCode st1.
          await (pollAccessToken deviceCode st1 (pollSteps env))
            (\<lambda>tok st2.
               await (meanwhile (destroyDuringSave env) (writeGithubToken tok (saveReply env) st2))
                 (\<lambda>u st3.
                    meanwhile (destroyDuringNewVerify env)
                      (verifyGitHubUser (userReply env) (st3\<lparr>githubToken := Some tok\<rparr>)))))"

definition setupGitHubToken :: "environment \<Rightarrow> state \<Rightarrow> unit outcome \<times> state" where
  "setupGitHubToken env st =
     (let st0 = st\<lparr>pollingCancelled := False\<rparr>;
          st1 = interrupted (destroyDuringRead env) st0
      in case readGithubToken st0 of
           None \<Rightarrow> oauthFlow env st1
         | Some savedToken \<Rightarrow>
             (case meanwhile (destroyDuringVerify env)
                     (verifyGitHubUser (storedUserReply env) (st1\<lparr>githubToken := Some savedToken\<rparr>)) of
                (Resolved u, st2) \<Rightarrow> (Resolved (), st2)
              | (Rejected verifyError, st2) \<Rightarrow>
                  await (meanwhile (destroyDuringClear env) (writeGithubToken [] (clearReply env) st2))
                    (\<lambda>u st3. oauthFlow env (st3\<lparr>githubToken := None\<rparr>))
              | (Unsettled, st2) \<Rightarrow> (Unsettled, st2)))"

definition doInitialize :: "environment \<Rightarrow> state \<Rightarrow> unit outcome \<times> state" where
  "doInitialize env st =
     (let st0 = (if verbose st then emit [Fetch ApiHead] st else st)
      in await (ensurePaths env st0)
           (\<lambda>u st1.
              await (if truthy (providedGithubToken st1)
                     then (Resolved (), st1\<lparr>githubToken := providedGithubToken st1\<rparr>)
                     else setupGitHubToken env st1)
                (\<lambda>u st2. setupCopilotToken (copilotReply env) st2)))"

text \<open>
  A call of \<^verbatim>\<open>initialize()\<close> up to its first suspension. The promise it hands back is
  resolved at once, or follows the promise of the \<^verbatim>\<open>doInitialize()\<close> execution with the
  given number: the one this call has started, or the one it found in flight.
\<close>

datatype caller = ReturnedAtOnce | StartedFlow nat | JoinedFlow nat

definition initialize :: "state \<Rightarrow> caller \<times> state" where
  "initialize st =
     (if isInitialized st then (ReturnedAtOnce, st)
      else case initializePromise st of
             Some p \<Rightarrow> (JoinedFlow p, st)
           | None \<Rightarrow>
               (let p = started st
                in (StartedFlow p, st\<lparr>initializePromise := Some p, started := p + 1\<rparr>)))"

text \<open>
  The execution of \<^verbatim>\<open>doInitialize()\<close> in flight runs through its awaits with the replies
  \<open>env\<close>, its promise settles, and the call that started it resumes after its
  \<^verbatim>\<open>await this.initializePromise\<close>: \<^verbatim>\<open>isInitialized = true\<close> on success, and
  \<^verbatim>\<open>initializePromise = null\<close> in the \<^verbatim>\<open>finally\<close> block.
\<close>

definition settle :: "environment \<Rightarrow> state \<Rightarrow> state" where
  "settle env st =
     (case initializePromise st of
        None \<Rightarrow> st
      | Some p \<Rightarrow>
          (case doInitialize env st of
             (Resolved u, st1) \<Rightarrow>
               st1\<lparr>isInitialized := True, initializePromise := None,
                   settled := (settled st1)(p := Resolved ())\<rparr>
           | (Rejected e, st1) \<Rightarrow>
               st1\<lparr>initializePromise := None, settled := (settled st1)(p := Rejected e)\<rparr>
           | (Unsettled, st1) \<Rightarrow> st1))"

definition callerOutcome :: "state \<Rightarrow> caller \<Rightarrow> unit outcome" where
  "callerOutcome st c =
     (case c of
        ReturnedAtOnce \<Rightarrow> Resolved ()
      | StartedFlow p \<Rightarrow> settled st p
      | JoinedFlow p \<Rightarrow> settled st p)"

text \<open>\<open>n\<close> calls of \<^verbatim>\<open>initialize()\<close>, one after the other, with nothing settling in between.\<close>

fun initializeCalls :: "nat \<Rightarrow> state \<Rightarrow> caller list \<times> state" where
  "initializeCalls 0 st = ([], st)"
| "initializeCalls (Suc n) st =
     (case initialize st of
        (c, st1) \<Rightarrow> (case initializeCalls n st1 of (cs, st2) \<Rightarrow> (c # cs, st2)))"

section \<open>getCopilotToken\<close>

text \<open>\<^verbatim>\<open>Date.now() / 1000\<close>\<close>

definition now :: "state \<Rightarrow> real" where
  "now st = real_of_int (clock st) / 1000"

definition getCopilotToken :: "CopilotTokenResponse reply \<Rightarrow> state \<Rightarrow> string outcome \<times> state" where
  "getCopilotToken r st =
     (if \<not> truthy (copilotToken st) then (Rejected CopilotTokenNotAvailable, st)
      else case copilotTokenExpiresAt st of
             None \<Rightarrow> (Resolved (str (copilotToken st)), st)
           | Some expiresAt \<Rightarrow>
               (if expiresAt \<noteq> 0 \<and> now st \<ge> real_of_int expiresAt - 5 * 60 then
                  (case getCopilotTokenFromAPI r st of
                     (Resolved newTokenResponse, st1) \<Rightarrow>
                       (let st2 = storeCopilotToken newTokenResponse st1;
                            st3 = (case refreshTimeout st2 of
                                     None \<Rightarrow> st2
                                   | Some h \<Rightarrow> clearTimeout h st2);
                            st4 = setupAutoRefresh newTokenResponse st3
                        in (Resolved (str (copilotToken st4)), st4))
                   | (Rejected e, st1) \<Rightarrow> (Rejected RefreshFailed, st1)
                   | (Unsettled, st1) \<Rightarrow> (Unsettled, st1))
                else (Resolved (str (copilotToken st)), st)))"

section \<open>Time passing\<close>

text \<open>The pending timer that fires next when the clock is moved to \<open>t\<close>: the earliest due one.\<close>

fun nextDue :: "int \<Rightarrow> (nat \<times> int) list \<Rightarrow> (nat \<times> int) option" where
  "nextDue t [] = None"
| "nextDue t ((h, due) # ts) =
     (case nextDue t ts of
        None \<Rightarrow> (if due \<le> t then Some (h, due) else None)
      | Some (h', due') \<Rightarrow> (if due \<le> t \<and> due \<le> due' then Some (h, due) else Some (h', due')))"

definition fire :: "nat \<Rightarrow> int \<Rightarrow> state \<Rightarrow> state" where
  "fire h due st =
     st\<lparr>timers := filter (\<lambda>(k, d). k \<noteq> h) (timers st), clock := max (clock st) due\<rparr>"

text \<open>
  The clock moves to \<open>t\<close>; every refresh timer that comes due fires and runs its callback,
  each with the next reply of the token endpoint. With no reply left the callback's fetch
  stays unanswered and the run ends there.
\<close>

fun advanceTime :: "int \<Rightarrow> CopilotTokenResponse reply list \<Rightarrow> state \<Rightarrow> state" where
  "advanceTime t [] st =
     (case nextDue t (timers st) of
        None \<Rightarrow> st\<lparr>clock := max (clock st) t\<rparr>
      | Some (h, due) \<Rightarrow>
          (if truthy (githubToken st) then emit [Fetch CopilotToken] (fire h due st)
           else fire h due st))"
| "advanceTime t (r # rs) st =
     (case nextDue t (timers st) of
        None \<Rightarrow> st\<lparr>clock := max (clock st) t\<rparr>
      | Some (h, due) \<Rightarrow> advanceTime t rs (refreshCallback r (fire h due st)))"

section \<open>Observations on states and traces\<close>

text \<open>The manager as the constructor leaves it, in a world with no token file.\<close>

definition newManager :: "string option \<Rightarrow> bool \<Rightarrow> state" where
  "newManager provided v =
     \<lparr>providedGithubToken = provided, githubToken = None, copilotToken = None,
      copilotTokenExpiresAt = None, refreshTimeout = None, verbose = v,
      pollingCancelled = False, isInitialized = False, initializePromise = None,
      tokenFile = None, timers = [], nextHandle = 0, clock = 0, started = 0,
      settled = (\<lambda>p. Unsettled), trace = []\<rparr>"

fun isFetch :: "effect \<Rightarrow> bool" where
  "isFetch (Fetch e) = True"
| "isFetch (Sleep ms) = False"
| "isFetch (WriteFile c) = False"
| "isFetch (SetTimeout h d) = False"
| "isFetch (ClearTimeout h) = False"

text \<open>The network calls of a trace, and how many of them went to one endpoint.\<close>

definition fetches :: "state \<Rightarrow> effect list" where
  "fetches st = filter isFetch (trace st)"

definition fetchCount :: "endpoint \<Rightarrow> state \<Rightarrow> nat" where
  "fetchCount e st = count_list (trace st) (Fetch e)"

text \<open>The durations of the sleeps of a trace, in order.\<close>

fun sleeps :: "effect list \<Rightarrow> int list" where
  "sleeps [] = []"
| "sleeps (Sleep ms # es) = ms # sleeps es"
| "sleeps (Fetch e # es) = sleeps es"
| "sleeps (WriteFile c # es) = sleeps es"
| "sleeps (SetTimeout h d # es) = sleeps es"
| "sleeps (ClearTimeout h # es) = sleeps es"

text \<open>Writes of a credential to the token file, as opposed to writes of the empty string.\<close>

fun isSave :: "effect \<Rightarrow> bool" where
  "isSave (WriteFile c) = (c \<noteq> [])"
| "isSave (Fetch e) = False"
| "isSave (Sleep ms) = False"
| "isSave (SetTimeout h d) = False"
| "isSave (ClearTimeout h) = False"

definition saveCount :: "state \<Rightarrow> nat" where
  "saveCount st = length (filter isSave (trace st))"

text \<open>A reply after which the loop sleeps and polls again.\<close>

fun nonResolving :: "poll_json reply \<Rightarrow> bool" where
  "nonResolving r = (case handleReply 0 r of SleepThenContinue ms \<Rightarrow> True | Return tok \<Rightarrow> False | Throw e \<Rightarrow> False)"

text \<open>A script in which \<^verbatim>\<open>destroy()\<close> never runs and every reply is non-resolving.\<close>

fun quietPending :: "poll_step list \<Rightarrow> bool" where
  "quietPending [] = True"
| "quietPending ((r, d) # rest) = (nonResolving r \<and> \<not> d \<and> quietPending rest)"

fun isSlowDown :: "poll_json reply \<Rightarrow> bool" where
  "isSlowDown (Response ok (Some (JsonObject err descr tok))) = (err = Some ''slow_down'')"
| "isSlowDown (Response ok (Some JsonNull)) = False"
| "isSlowDown (Response ok None) = False"
| "isSlowDown NetworkFailure = False"

fun destroyRuns :: "poll_step list \<Rightarrow> bool" where
  "destroyRuns [] = False"
| "destroyRuns ((r, d) # rest) = (d \<or> destroyRuns rest)"

text \<open>The token response that a reply of the exchange endpoint carries, if it carries one.\<close>

fun exchanged :: "CopilotTokenResponse reply \<Rightarrow> CopilotTokenResponse option" where
  "exchanged (Response ok (Some tr)) = (if ok then Some tr else None)"
| "exchanged (Response ok None) = None"
| "exchanged NetworkFailure = None"

fun verifies :: "string reply \<Rightarrow> bool" where
  "verifies (Response ok (Some login)) = ok"
| "verifies (Response ok None) = False"
| "verifies NetworkFailure = False"

text \<open>The pending timers are at most the one whose handle the manager holds.\<close>

definition refreshScheduled :: "state \<Rightarrow> bool" where
  "refreshScheduled st = list_all (\<lambda>(h, due). refreshTimeout st = Some h) (timers st)"

section \<open>Auxiliary notions for the proofs\<close>

text \<open>The sleep of the iteration that receives the reply of a step.\<close>

fun sleepFor :: "int \<Rightarrow> poll_step \<Rightarrow> int" where
  "sleepFor sd (r, d) = (if isSlowDown r then sd * 2 else sd)"

text \<open>
  What \<^verbatim>\<open>doInitialize()\<close> leaves alone: the fields read by \<^verbatim>\<open>initialize()\<close>, and all but
  \<open>k\<close> device-code requests and \<open>j\<close> credential writes.
\<close>

definition initFootprint :: "nat \<Rightarrow> nat \<Rightarrow> state \<Rightarrow> state \<Rightarrow> bool" where
  "initFootprint k j st st' =
     (isInitialized st' = isInitialized st \<and> initializePromise st' = initializePromise st \<and>
      started st' = started st \<and> settled st' = settled st \<and>
      fetchCount DeviceCode st' \<le> fetchCount DeviceCode st + k \<and>
      saveCount st' \<le> saveCount st + j)"

text \<open>
  What the calls before the token exchange leave alone: they also arm no timer and keep the
  Copilot token.
\<close>

definition footprint :: "nat \<Rightarrow> nat \<Rightarrow> state \<Rightarrow> state \<Rightarrow> bool" where
  "footprint k j st st' =
     (initFootprint k j st st' \<and> (timers st = [] \<longrightarrow> timers st' = []) \<and>
      copilotToken st' = copilotToken st)"

text \<open>
  The states of a manager whose calls do not overlap: the pending timers are at most the one
  it holds the handle of, there is no timer and no Copilot token before it is initialized,
  and it is not initializing once it is initialized.
\<close>

definition steady :: "state \<Rightarrow> bool" where
  "steady st =
     (refreshScheduled st \<and>
      (\<not> isInitialized st \<longrightarrow> timers st = [] \<and> \<not> truthy (copilotToken st)) \<and>
      (isInitialized st \<longrightarrow> initializePromise st = None))"

section \<open>Example inputs\<close>

definition exampleCode :: DeviceCodeResponse where
  "exampleCode = \<lparr>device_code = ''dev'', user_code = ''ABCD-1234'',
     verification_uri = ''https://github.com/login/device'', expires_in = 30, interval = 5\<rparr>"

definition pendingReply :: "poll_json reply" where
  "pendingReply = Response True (Some (JsonObject (Some ''authorization_pending'') None None))"

definition slowDownReply :: "poll_json reply" where
  "slowDownReply = Response True (Some (JsonObject (Some ''slow_down'') None None))"

definition tokenReply :: "poll_json reply" where
  "tokenReply = Response True (Some (JsonObject None None (Some ''gho_1'')))"

definition exampleToken :: CopilotTokenResponse where
  "exampleToken = \<lparr>expires_at = 1800, refresh_in = 1500, token = ''tid=1''\<rparr>"

text \<open>
  A stored token that fails verification, then a device flow in which the user authorizes
  after one pending poll.
\<close>

definition exampleState :: state where
  "exampleState = (newManager None False)\<lparr>tokenFile := Some ''gho_old''\<rparr>"

definition exampleEnv :: environment where
  "exampleEnv =
     \<lparr>mkdirOk = True, createReply = Written, destroyDuringRead = False,
      storedUserReply = Response False None, destroyDuringVerify = False,
      clearReply = Written, destroyDuringClear = False,
      deviceCodeReply = Response True (Some exampleCode), destroyDuringDeviceCode = False,
      pollSteps = [(pendingReply, False), (tokenReply, False)],
      saveReply = Written, destroyDuringSave = False,
      userReply = Response True (Some ''octocat''), destroyDuringNewVerify = False,
      copilotReply = Response True (Some exampleToken)\<rparr>"

definition renewedToken :: CopilotTokenResponse where
  "renewedToken = \<lparr>expires_at = 3600, refresh_in = 1500, token = ''tid=2''\<rparr>"

definition shortLivedToken :: CopilotTokenResponse where
  "shortLivedToken = \<lparr>expires_at = 1830, refresh_in = 30, token = ''tid=3''\<rparr>"

definition farToken :: CopilotTokenResponse where
  "farToken = \<lparr>expires_at = 2147545800, refresh_in = 2147544, token = ''tid=4''\<rparr>"

text \<open>The manager after one \<^verbatim>\<open>initialize()\<close> that ran to its end with the replies above.\<close>

definition readyState :: state where
  "readyState = settle exampleEnv (snd (initialize exampleState))"

text \<open>The same replies, but \<^verbatim>\<open>destroy()\<close> is called while the device code is requested.\<close>

definition earlyDestroyEnv :: environment where
  "earlyDestroyEnv = exampleEnv\<lparr>destroyDuringDeviceCode := True\<rparr>"

text \<open>The same replies, but \<^verbatim>\<open>destroy()\<close> is called after the poll loop, while the token is saved.\<close>

definition lateDestroyEnv :: environment where
  "lateDestroyEnv = exampleEnv\<lparr>destroyDuringSave := True, destroyDuringNewVerify := True\<rparr>"

section \<open>Basic facts\<close>


lemma pollingCancelled_emit: "pollingCancelled (emit es st) = pollingCancelled st"
  by (simp add: emit_def)

lemma fetchCount_emit: "fetchCount e (emit es st) = fetchCount e st + count_list es (Fetch e)"
  by (simp add: fetchCount_def emit_def)

lemma destroy_eq:
  "destroy st =
     st\<lparr>pollingCancelled := True, refreshTimeout := None,
        timers := (case refreshTimeout st of None \<Rightarrow> timers st
                   | Some h \<Rightarrow> filter (\<lambda>(k, due). k \<noteq> h) (timers st)),
        trace := trace st @ (case refreshTimeout st of None \<Rightarrow> [] | Some h \<Rightarrow> [ClearTimeout h])\<rparr>"
  by (cases "refreshTimeout st") (simp_all add: destroy_def clearTimeout_def emit_def Let_def)

lemma pollingCancelled_destroy: "pollingCancelled (destroy st)"
  by (simp add: destroy_eq)

lemma fetchCount_destroy: "fetchCount e (destroy st) = fetchCount e st"
  by (simp add: destroy_eq fetchCount_def split: option.split)


lemma sleeps_append: "sleeps (xs @ ys) = sleeps xs @ sleeps ys"
  by (induction xs rule: sleeps.induct) simp_all

lemma sleeps_destroy: "sleeps (trace (destroy st)) = sleeps (trace st)"
  by (simp add: destroy_eq sleeps_append split: option.split)

lemma pollingCancelled_interrupted: "pollingCancelled (interrupted d st) = (d \<or> pollingCancelled st)"
  by (simp add: interrupted_def pollingCancelled_destroy)

lemma fetchCount_interrupted: "fetchCount e (interrupted d st) = fetchCount e st"
  by (simp add: interrupted_def fetchCount_destroy)

lemma sleeps_interrupted: "sleeps (trace (interrupted d st)) = sleeps (trace st)"
  by (simp add: interrupted_def sleeps_destroy)

lemma interrupted_False: "interrupted False st = st"
  by (simp add: interrupted_def)

lemma js_less_mono: "js_less b mx \<Longrightarrow> a \<le> b \<Longrightarrow> js_less a mx"
  by (cases mx) simp_all

section \<open>The poll loop\<close>

lemma handleReply_not_cancelled: "handleReply sd r \<noteq> Throw PollingCancelled"
  by (induction sd r rule: handleReply.induct) simp_all

lemma handleReply_sleep:
  "nonResolving r \<Longrightarrow> handleReply sd r = SleepThenContinue (if isSlowDown r then sd * 2 else sd)"
  by (induction sd r rule: handleReply.induct) (auto split: if_splits)

lemma handleReply_token: "handleReply sd r = Return tok \<Longrightarrow> tok \<noteq> []"
  by (induction sd r rule: handleReply.induct) (auto split: if_splits elim: truthy.elims)

lemma pollLoop_cancelled:
  "pollingCancelled st \<Longrightarrow> js_less a mx \<Longrightarrow> pollLoop sd mx a st steps = (Rejected PollingCancelled, st)"
  by (cases steps) auto

lemma pollLoop_quiet_step:
  assumes "\<not> pollingCancelled st" "nonResolving r" "js_less a mx"
  shows "pollLoop sd mx a st ((r, d) # steps) =
         pollLoop sd mx (a + 1) (interrupted d (emit [Fetch AccessToken, Sleep (sleepFor sd (r, d))] st)) steps"
  using assms handleReply_sleep [OF assms(2), of sd] by simp





lemma pollLoop_cancel_between:
  "\<not> pollingCancelled st \<Longrightarrow> quietPending pre \<Longrightarrow> nonResolving r \<Longrightarrow>
   js_less (a + int (length pre) + 1) mx \<Longrightarrow>
   fst (pollLoop sd mx a st (pre @ (r, True) # rest)) = Rejected PollingCancelled \<and>
   fetchCount AccessToken (snd (pollLoop sd mx a st (pre @ (r, True) # rest))) =
     fetchCount AccessToken st + length pre + 1"
proof (induction pre arbitrary: a st)
  case Nil
  let ?st = "interrupted True (emit [Fetch AccessToken, Sleep (sleepFor sd (r, True))] st)"
  from Nil.prems(4) have next_it: "js_less (a + 1) mx" by simp
  then have less: "js_less a mx" by (rule js_less_mono) simp
  have unf: "pollLoop sd mx a st ((r, True) # rest) = pollLoop sd mx (a + 1) ?st rest"
    using Nil.prems(1,3) less by (rule pollLoop_quiet_step)
  have stop: "pollLoop sd mx (a + 1) ?st rest = (Rejected PollingCancelled, ?st)"
    using next_it by (intro pollLoop_cancelled) (simp_all add: pollingCancelled_interrupted)
  have res: "pollLoop sd mx a st ([] @ (r, True) # rest) = (Rejected PollingCancelled, ?st)"
    by (simp only: append_Nil unf stop)
  show ?case unfolding res by (simp add: fetchCount_interrupted fetchCount_emit)
next
  case (Cons step pre)
  obtain q d where step: "step = (q, d)" by (cases step)
  from Cons.prems step have q: "\<not> d" "nonResolving q" "quietPending pre" by simp_all
  from Cons.prems(4) have b: "js_less (a + 1 + int (length pre) + 1) mx" by (simp add: ac_simps)
  then have less: "js_less a mx" by (rule js_less_mono) simp
  let ?st = "emit [Fetch AccessToken, Sleep (sleepFor sd (q, d))] st"
  have unf: "pollLoop sd mx a st ((step # pre) @ (r, True) # rest) =
             pollLoop sd mx (a + 1) ?st (pre @ (r, True) # rest)"
    using pollLoop_quiet_step [of st q a mx sd d "pre @ (r, True) # rest"] Cons.prems(1) q less
    by (simp add: step interrupted_False)
  have "fst (pollLoop sd mx (a + 1) ?st (pre @ (r, True) # rest)) = Rejected PollingCancelled \<and>
        fetchCount AccessToken (snd (pollLoop sd mx (a + 1) ?st (pre @ (r, True) # rest))) =
          fetchCount AccessToken ?st + length pre + 1"
    using Cons.prems(1,3) q(3) b by (intro Cons.IH) (simp_all add: pollingCancelled_emit)
  then show ?case unfolding unf by (simp add: fetchCount_emit)
qed

lemma pollLoop_cancelled_needs_destroy:
  "\<not> pollingCancelled st \<Longrightarrow> \<not> destroyRuns steps \<Longrightarrow>
   fst (pollLoop sd mx a st steps) \<noteq> Rejected PollingCancelled"
proof (induction steps arbitrary: a st)
  case Nil
  then show ?case by simp
next
  case (Cons step steps)
  obtain r d where step: "step = (r, d)" by (cases step)
  from Cons.prems step have nd: "\<not> d" "\<not> destroyRuns steps" by simp_all
  show ?case
  proof (cases "handleReply sd r")
    case (SleepThenContinue ms)
    have "fst (pollLoop sd mx (a + 1) (emit [Fetch AccessToken, Sleep ms] st) steps) \<noteq> Rejected PollingCancelled"
      using Cons.prems(1) nd(2) by (intro Cons.IH) (simp_all add: pollingCancelled_emit)
    then show ?thesis using SleepThenContinue nd(1) Cons.prems(1) by (simp add: step interrupted_False)
  next
    case (Return tok)
    then show ?thesis using nd(1) Cons.prems(1) by (simp add: step)
  next
    case (Throw e)
    have "e \<noteq> PollingCancelled" using Throw handleReply_not_cancelled [of sd r] by auto
    then show ?thesis using Throw nd(1) Cons.prems(1) by (simp add: step)
  qed
qed

lemma pollLoop_outcome_flag_only:
  "pollingCancelled st = pollingCancelled st' \<Longrightarrow>
   fst (pollLoop sd mx a st steps) = fst (pollLoop sd mx a st' steps)"
proof (induction steps arbitrary: a st st')
  case Nil
  then show ?case by simp
next
  case (Cons step steps)
  obtain r d where step: "step = (r, d)" by (cases step)
  show ?case
  proof (cases "handleReply sd r")
    case (SleepThenContinue ms)
    have "fst (pollLoop sd mx (a + 1) (interrupted d (emit [Fetch AccessToken, Sleep ms] st)) steps) =
          fst (pollLoop sd mx (a + 1) (interrupted d (emit [Fetch AccessToken, Sleep ms] st')) steps)"
      using Cons.prems by (intro Cons.IH) (simp add: pollingCancelled_interrupted pollingCancelled_emit)
    then show ?thesis using SleepThenContinue Cons.prems by (simp add: step)
  next
    case (Return tok)
    then show ?thesis using Cons.prems by (simp add: step)
  next
    case (Throw e)
    then show ?thesis using Cons.prems by (simp add: step)
  qed
qed

lemma pollLoop_token_nonempty: "fst (pollLoop sd mx a st steps) = Resolved tok \<Longrightarrow> tok \<noteq> []"
proof (induction steps arbitrary: a st)
  case Nil
  then show ?case by (simp split: if_splits)
next
  case (Cons step steps)
  obtain r d where step: "step = (r, d)" by (cases step)
  show ?case
  proof (cases "handleReply sd r")
    case (SleepThenContinue ms)
    then show ?thesis using Cons.prems Cons.IH by (simp add: step split: if_splits)
  next
    case (Return t)
    then show ?thesis using Cons.prems handleReply_token [of sd r t] by (simp add: step split: if_splits)
  next
    case (Throw e)
    then show ?thesis using Cons.prems by (simp add: step split: if_splits)
  qed
qed




section \<open>What an initialization touches\<close>

lemma footprint_refl: "footprint 0 0 st st"
  by (auto simp add: footprint_def initFootprint_def)

lemma footprint_trans: "footprint k j st st1 \<Longrightarrow> footprint k' j' st1 st2 \<Longrightarrow> k + k' \<le> k'' \<Longrightarrow> j + j' \<le> j'' \<Longrightarrow> footprint k'' j'' st st2"
  by (auto simp add: footprint_def initFootprint_def)

lemma footprint_emit:
  "count_list es (Fetch DeviceCode) \<le> k \<Longrightarrow> length (filter isSave es) \<le> j \<Longrightarrow> footprint k j st (emit es st)"
  by (simp add: footprint_def initFootprint_def emit_def fetchCount_def saveCount_def)

lemma footprint_destroy: "footprint 0 0 st (destroy st)"
  by (simp add: footprint_def initFootprint_def destroy_eq fetchCount_def saveCount_def split: option.split)

lemma awaitE:
  assumes "await m f = (out, st')"
  obtains (resolved) x st1 where "m = (Resolved x, st1)" "f x st1 = (out, st')"
        | (rejected) e where "m = (Rejected e, st')" "out = Rejected e"
        | (unsettled) "m = (Unsettled, st')" "out = Unsettled"
  using assms by (auto simp add: await_def split: prod.splits outcome.splits)

lemma footprint_interrupted: "footprint 0 0 st (interrupted d st)"
  by (simp add: interrupted_def footprint_destroy footprint_refl)

lemma footprint_poll_step:
  "count_list es (Fetch DeviceCode) = 0 \<Longrightarrow> filter isSave es = [] \<Longrightarrow>
   footprint 0 0 st (interrupted d (emit es st))"
  using footprint_emit [of es 0 0 st] footprint_interrupted [of "emit es st" d]
  by (auto simp add: footprint_def initFootprint_def)

lemma pollLoop_footprint: "footprint 0 0 st (snd (pollLoop sd mx a st steps))"
proof (induction steps arbitrary: a st)
  case Nil
  then show ?case by (simp add: footprint_refl footprint_emit)
next
  case (Cons step steps)
  obtain r d where step: "step = (r, d)" by (cases step)
  show ?case
  proof (cases "handleReply sd r")
    case (SleepThenContinue ms)
    let ?st = "interrupted d (emit [Fetch AccessToken, Sleep ms] st)"
    have "footprint 0 0 st ?st" by (rule footprint_poll_step) simp_all
    moreover have "footprint 0 0 ?st (snd (pollLoop sd mx (a + 1) ?st steps))"
      by (rule Cons.IH)
    ultimately have "footprint 0 0 st (snd (pollLoop sd mx (a + 1) ?st steps))"
      by (auto simp add: footprint_def initFootprint_def)
    then show ?thesis using SleepThenContinue by (simp add: step footprint_refl)
  next
    case (Return tok)
    have "footprint 0 0 st (interrupted d (emit [Fetch AccessToken] st))"
      by (rule footprint_poll_step) simp_all
    then show ?thesis using Return by (simp add: step footprint_refl)
  next
    case (Throw e)
    have "footprint 0 0 st (interrupted d (emit [Fetch AccessToken] st))"
      by (rule footprint_poll_step) simp_all
    then show ?thesis using Throw by (simp add: step footprint_refl)
  qed
qed

lemma pollAccessToken_footprint: "pollAccessToken dc st steps = (out, st') \<Longrightarrow> footprint 0 0 st st'"
  using pollLoop_footprint [of st "sleepDuration dc" "maxAttempts dc" 0 steps]
  by (simp add: pollAccessToken_def)

lemma credentials_interrupted:
  "tokenFile (interrupted d st) = tokenFile st \<and> githubToken (interrupted d st) = githubToken st"
  by (simp add: interrupted_def destroy_eq)

lemma pollLoop_credentials:
  "tokenFile (snd (pollLoop sd mx a st steps)) = tokenFile st \<and>
   githubToken (snd (pollLoop sd mx a st steps)) = githubToken st"
proof (induction steps arbitrary: a st)
  case Nil
  then show ?case by (simp add: emit_def)
next
  case (Cons step steps)
  obtain r d where step: "step = (r, d)" by (cases step)
  show ?case
  proof (cases "handleReply sd r")
    case (SleepThenContinue ms)
    then show ?thesis
      using Cons.IH [of "a + 1" "interrupted d (emit [Fetch AccessToken, Sleep ms] st)"]
      by (simp add: step credentials_interrupted emit_def)
  next
    case (Return tok)
    then show ?thesis by (simp add: step credentials_interrupted emit_def)
  next
    case (Throw e)
    then show ?thesis by (simp add: step credentials_interrupted emit_def)
  qed
qed

lemma getDeviceCode_footprint: "getDeviceCode r st = (out, st') \<Longrightarrow> footprint 1 0 st st'"
  by (cases r) (auto split: if_splits option.splits intro!: footprint_emit)

lemma writeGithubToken_footprint: "writeGithubToken c fr st = (out, st') \<Longrightarrow> footprint 0 1 st st'"
  by (cases fr) (auto simp add: footprint_def initFootprint_def emit_def fetchCount_def saveCount_def)

lemma clear_footprint: "writeGithubToken [] fr st = (out, st') \<Longrightarrow> footprint 0 0 st st'"
  by (cases fr) (auto simp add: footprint_def initFootprint_def emit_def fetchCount_def saveCount_def)

lemma verifyGitHubUser_footprint: "verifyGitHubUser r st = (out, st') \<Longrightarrow> footprint 0 0 st st'"
  by (cases r) (auto simp add: verifyGitHubUser_def footprint_refl split: if_splits option.splits intro!: footprint_emit)

lemma footprint_githubToken: "footprint 0 0 st (st\<lparr>githubToken := t\<rparr>)"
  by (simp add: footprint_def initFootprint_def fetchCount_def saveCount_def)

lemma footprint_pollingCancelled: "footprint 0 0 st (st\<lparr>pollingCancelled := b\<rparr>)"
  by (simp add: footprint_def initFootprint_def fetchCount_def saveCount_def)

lemma meanwhileE:
  assumes "meanwhile d m = (out, st')"
  obtains st1 where "m = (out, st1)" and "st' = interrupted d st1"
  using assms by (cases m) (simp add: meanwhile_def)

lemma meanwhile_footprint:
  assumes "meanwhile d m = (out, st')" and "\<And>st1. m = (out, st1) \<Longrightarrow> footprint k j st st1"
  shows "footprint k j st st'"
proof -
  from assms(1) obtain st1 where m: "m = (out, st1)" and s: "st' = interrupted d st1"
    by (rule meanwhileE)
  from m have "footprint k j st st1" by (rule assms(2))
  with footprint_interrupted [of st1 d] show ?thesis
    by (auto simp add: s footprint_def initFootprint_def)
qed

lemma oauthFlow_footprint:
  assumes "oauthFlow env st = (out, st')"
  shows "footprint 1 1 st st'"
  using assms unfolding oauthFlow_def
proof (cases rule: awaitE)
  case (resolved dc st1)
  from resolved(1) have w1: "footprint 1 0 st st1"
    by (rule meanwhile_footprint) (erule getDeviceCode_footprint)
  from resolved(2) show ?thesis
  proof (cases rule: awaitE)
    case (resolved tok st2)
    note poll = this
    from poll(1) have w2: "footprint 0 0 st1 st2" by (rule pollAccessToken_footprint)
    from poll(2) show ?thesis
    proof (cases rule: awaitE)
      case (resolved u st3)
      from resolved(1) have w3: "footprint 0 1 st2 st3"
        by (rule meanwhile_footprint) (erule writeGithubToken_footprint)
      have w4: "footprint 0 0 st3 (st3\<lparr>githubToken := Some tok\<rparr>)" by (rule footprint_githubToken)
      from resolved(2) have w5: "footprint 0 0 (st3\<lparr>githubToken := Some tok\<rparr>) st'"
        by (rule meanwhile_footprint) (erule verifyGitHubUser_footprint)
      from w1 w2 w3 w4 w5 show ?thesis by (auto simp add: footprint_def initFootprint_def)
    next
      case (rejected e)
      from rejected(1) have "footprint 0 1 st2 st'"
        by (rule meanwhile_footprint) (erule writeGithubToken_footprint)
      with w1 w2 show ?thesis by (auto simp add: footprint_def initFootprint_def)
    next
      case unsettled
      from unsettled(1) have "footprint 0 1 st2 st'"
        by (rule meanwhile_footprint) (erule writeGithubToken_footprint)
      with w1 w2 show ?thesis by (auto simp add: footprint_def initFootprint_def)
    qed
  next
    case (rejected e)
    from rejected(1) have "footprint 0 0 st1 st'" by (rule pollAccessToken_footprint)
    with w1 show ?thesis by (auto simp add: footprint_def initFootprint_def)
  next
    case unsettled
    from unsettled(1) have "footprint 0 0 st1 st'" by (rule pollAccessToken_footprint)
    with w1 show ?thesis by (auto simp add: footprint_def initFootprint_def)
  qed
next
  case (rejected e)
  from rejected(1) have "footprint 1 0 st st'"
    by (rule meanwhile_footprint) (erule getDeviceCode_footprint)
  then show ?thesis by (auto simp add: footprint_def initFootprint_def)
next
  case unsettled
  from unsettled(1) have "footprint 1 0 st st'"
    by (rule meanwhile_footprint) (erule getDeviceCode_footprint)
  then show ?thesis by (auto simp add: footprint_def initFootprint_def)
qed

lemma setupGitHubToken_footprint:
  assumes "setupGitHubToken env st = (out, st')"
  shows "footprint 1 1 st st'"
proof -
  let ?st0 = "st\<lparr>pollingCancelled := False\<rparr>"
  let ?st1 = "interrupted (destroyDuringRead env) ?st0"
  have w0: "footprint 0 0 st ?st1"
    using footprint_pollingCancelled [of st False] footprint_interrupted [of ?st0 "destroyDuringRead env"]
    by (auto simp add: footprint_def initFootprint_def)
  show ?thesis
  proof (cases "readGithubToken ?st0")
    case None
    with assms have "oauthFlow env ?st1 = (out, st')" by (simp add: setupGitHubToken_def Let_def)
    then have "footprint 1 1 ?st1 st'" by (rule oauthFlow_footprint)
    with w0 show ?thesis by (auto simp add: footprint_def initFootprint_def)
  next
    case (Some savedToken)
    let ?sv = "?st1\<lparr>githubToken := Some savedToken\<rparr>"
    obtain o1 st2 where v: "meanwhile (destroyDuringVerify env)
        (verifyGitHubUser (storedUserReply env) ?sv) = (o1, st2)" by force
    from v have "footprint 0 0 ?sv st2"
      by (rule meanwhile_footprint) (erule verifyGitHubUser_footprint)
    then have w1: "footprint 0 0 st st2"
      using w0 footprint_githubToken [of ?st1 "Some savedToken"]
      by (auto simp add: footprint_def initFootprint_def)
    show ?thesis
    proof (cases o1)
      case (Resolved u)
      with assms Some v w1 show ?thesis
        by (simp add: setupGitHubToken_def Let_def footprint_def initFootprint_def)
    next
      case (Rejected e)
      with assms Some v have
        "await (meanwhile (destroyDuringClear env) (writeGithubToken [] (clearReply env) st2))
           (\<lambda>u st3. oauthFlow env (st3\<lparr>githubToken := None\<rparr>)) = (out, st')"
        by (simp add: setupGitHubToken_def Let_def)
      then show ?thesis
      proof (cases rule: awaitE)
        case (resolved u st3)
        from resolved(1) have "footprint 0 0 st2 st3"
          by (rule meanwhile_footprint) (erule clear_footprint)
        moreover have "footprint 0 0 st3 (st3\<lparr>githubToken := None\<rparr>)" by (rule footprint_githubToken)
        moreover from resolved(2) have "footprint 1 1 (st3\<lparr>githubToken := None\<rparr>) st'" by (rule oauthFlow_footprint)
        ultimately show ?thesis using w1 by (auto simp add: footprint_def initFootprint_def)
      next
        case (rejected e)
        from rejected(1) have "footprint 0 0 st2 st'"
          by (rule meanwhile_footprint) (erule clear_footprint)
        with w1 show ?thesis by (auto simp add: footprint_def initFootprint_def)
      next
        case unsettled
        from unsettled(1) have "footprint 0 0 st2 st'"
          by (rule meanwhile_footprint) (erule clear_footprint)
        with w1 show ?thesis by (auto simp add: footprint_def initFootprint_def)
      qed
    next
      case Unsettled
      with assms Some v w1 show ?thesis
        by (simp add: setupGitHubToken_def Let_def footprint_def initFootprint_def)
    qed
  qed
qed

lemma ensurePaths_footprint: "ensurePaths env st = (out, st') \<Longrightarrow> footprint 0 0 st st'"
  by (auto simp add: ensurePaths_def footprint_refl split: if_splits option.splits dest: clear_footprint)

lemma getCopilotTokenFromAPI_footprint: "getCopilotTokenFromAPI r st = (out, st') \<Longrightarrow> footprint 0 0 st st'"
  by (cases r) (auto simp add: getCopilotTokenFromAPI_def footprint_refl split: if_splits option.splits intro!: footprint_emit)

lemma initFootprint_arm:
  "initFootprint 0 0 st (setupAutoRefresh tr (storeCopilotToken tr st))"
  by (simp add: setupAutoRefresh_def setTimeout_def emit_def Let_def storeCopilotToken_def
      initFootprint_def fetchCount_def saveCount_def)

lemma setupCopilotToken_cases:
  assumes "setupCopilotToken r st = (out, st')"
  shows "(out = Resolved () \<and>
          (\<exists>tr st1. footprint 0 0 st st1 \<and> st' = setupAutoRefresh tr (storeCopilotToken tr st1)))
       \<or> (out \<noteq> Resolved () \<and> footprint 0 0 st st')"
  using assms unfolding setupCopilotToken_def
proof (cases rule: awaitE)
  case (resolved tr st1)
  from resolved(1) have "footprint 0 0 st st1" by (rule getCopilotTokenFromAPI_footprint)
  with resolved(2) show ?thesis by auto
next
  case (rejected e)
  then show ?thesis by (auto dest: getCopilotTokenFromAPI_footprint)
next
  case unsettled
  then show ?thesis by (auto dest: getCopilotTokenFromAPI_footprint)
qed

lemma doInitialize_split:
  assumes "doInitialize env st = (out, st')"
  shows "\<exists>st1. footprint 1 1 st st1 \<and>
           (setupCopilotToken (copilotReply env) st1 = (out, st') \<or> (st' = st1 \<and> out \<noteq> Resolved ()))"
proof -
  let ?st0 = "if verbose st then emit [Fetch ApiHead] st else st"
  have w0: "footprint 0 0 st ?st0" by (simp add: footprint_refl footprint_emit)
  from assms have "await (ensurePaths env ?st0)
           (\<lambda>u st1.
              await (if truthy (providedGithubToken st1)
                     then (Resolved (), st1\<lparr>githubToken := providedGithubToken st1\<rparr>)
                     else setupGitHubToken env st1)
                (\<lambda>u st2. setupCopilotToken (copilotReply env) st2)) = (out, st')"
    by (simp add: doInitialize_def Let_def)
  then show ?thesis
  proof (cases rule: awaitE)
    case (resolved u st1)
    from resolved(1) have w1: "footprint 0 0 ?st0 st1" by (rule ensurePaths_footprint)
    from resolved(2) show ?thesis
    proof (cases rule: awaitE)
      case (resolved u' st2)
      have w2: "footprint 1 1 st1 st2"
        using resolved(1) footprint_githubToken [of st1 "providedGithubToken st1"]
        by (auto split: if_splits dest: setupGitHubToken_footprint simp add: footprint_def initFootprint_def)
      from w0 w1 w2 have "footprint 1 1 st st2" by (auto simp add: footprint_def initFootprint_def)
      with resolved(2) show ?thesis by blast
    next
      case (rejected e)
      have "footprint 1 1 st1 st'" using rejected(1)
        by (auto split: if_splits dest: setupGitHubToken_footprint)
      with w0 w1 have "footprint 1 1 st st'" by (auto simp add: footprint_def initFootprint_def)
      with rejected(2) show ?thesis by blast
    next
      case unsettled
      have "footprint 1 1 st1 st'" using unsettled(1)
        by (auto split: if_splits dest: setupGitHubToken_footprint)
      with w0 w1 have "footprint 1 1 st st'" by (auto simp add: footprint_def initFootprint_def)
      with unsettled(2) show ?thesis by blast
    qed
  next
    case (rejected e)
    from rejected(1) have "footprint 0 0 ?st0 st'" by (rule ensurePaths_footprint)
    with w0 have "footprint 1 1 st st'" by (auto simp add: footprint_def initFootprint_def)
    with rejected(2) show ?thesis by blast
  next
    case unsettled
    from unsettled(1) have "footprint 0 0 ?st0 st'" by (rule ensurePaths_footprint)
    with w0 have "footprint 1 1 st st'" by (auto simp add: footprint_def initFootprint_def)
    with unsettled(2) show ?thesis by blast
  qed
qed

lemma doInitialize_footprint:
  assumes "doInitialize env st = (out, st')"
  shows "initFootprint 1 1 st st'"
proof -
  obtain st1 where fp: "footprint 1 1 st st1"
    and alt: "setupCopilotToken (copilotReply env) st1 = (out, st') \<or> (st' = st1 \<and> out \<noteq> Resolved ())"
    using doInitialize_split [OF assms] by blast
  from alt show ?thesis
  proof
    assume "setupCopilotToken (copilotReply env) st1 = (out, st')"
    from setupCopilotToken_cases [OF this] show ?thesis
    proof (elim disjE conjE exE)
      fix tr st2
      assume "footprint 0 0 st1 st2" "st' = setupAutoRefresh tr (storeCopilotToken tr st2)"
      with fp initFootprint_arm [of st2 tr] show ?thesis
        by (auto simp add: footprint_def initFootprint_def)
    next
      assume "footprint 0 0 st1 st'"
      with fp show ?thesis by (auto simp add: footprint_def initFootprint_def)
    qed
  next
    assume "st' = st1 \<and> out \<noteq> Resolved ()"
    with fp show ?thesis by (simp add: footprint_def)
  qed
qed

lemma initialize_joins:
  "\<not> isInitialized st \<Longrightarrow> initializePromise st = Some p \<Longrightarrow>
   initializeCalls n st = (replicate n (JoinedFlow p), st)"
  by (induction n) (simp_all add: initialize_def)

lemma initializeCalls_first:
  assumes "\<not> isInitialized st" "initializePromise st = None" "0 < n"
  shows "initializeCalls n st =
           (StartedFlow (started st) # replicate (n - 1) (JoinedFlow (started st)),
            st\<lparr>initializePromise := Some (started st), started := started st + 1\<rparr>)"
proof -
  obtain m where n: "n = Suc m" using assms(3) by (cases n) simp_all
  let ?st1 = "st\<lparr>initializePromise := Some (started st), started := started st + 1\<rparr>"
  have "initialize st = (StartedFlow (started st), ?st1)"
    using assms(1,2) by (simp add: initialize_def Let_def)
  moreover have "initializeCalls m ?st1 = (replicate m (JoinedFlow (started st)), ?st1)"
    using assms(1) by (intro initialize_joins) simp_all
  ultimately show ?thesis by (simp add: n)
qed

lemmas example_defs = exampleCode_def pendingReply_def slowDownReply_def tokenReply_def
  pollAccessToken_def sleepDuration_def maxAttempts_def ceil_div_def newManager_def emit_def interrupted_def
  nodeDelay_def


section \<open>The poll loop and initialize: claims\<close>

text \<open>
  Claim C1. The claim: when the body of a poll response does not parse as JSON, an ok
  response is a transient pending state (sleep, poll again) and a non-ok response is fatal.
  The code does the opposite, against its own comment ``Non-OK status and can't parse JSON -
  treat as error'': the ok response with the malformed body rejects the poll with 'Invalid
  response from GitHub OAuth', and the non-ok one sleeps and polls again, here up to the
  token of the next reply.
\<close>

theorem malformed_body_ok_is_fatal_not_ok_is_retried:
  "fst (pollAccessToken exampleCode (newManager None False) [(Response True None, False), (tokenReply, False)])
     = Rejected InvalidOAuthResponse
   \<and> fst (pollAccessToken exampleCode (newManager None False) [(Response False None, False), (tokenReply, False)])
     = Resolved ''gho_1''
   \<and> trace (snd (pollAccessToken exampleCode (newManager None False) [(Response False None, False), (tokenReply, False)]))
     = [Fetch AccessToken, Sleep 6000, Fetch AccessToken]"
  by (simp add: example_defs)




text \<open>
  Claim C4. Let \<open>n > 0\<close> calls of \<^verbatim>\<open>initialize()\<close> be made on a manager that is neither
  initialized nor initializing, before anything settles. Then the first call starts an
  execution of \<^verbatim>\<open>doInitialize()\<close> and every other call joins the promise of that same
  execution; exactly one execution has been started, and the calls have no effect of their
  own. When that execution settles with \<open>out\<close>, the promise of every one of the \<open>n\<close> calls
  settles with \<open>out\<close>; still exactly one execution has been started, and it has issued at
  most one device-code request and written at most one credential to the token file. The
  manager is then no longer initializing, and is initialized exactly when \<open>out\<close> is a success.
\<close>

theorem initialize_single_flight:
  assumes "\<not> isInitialized st" and "initializePromise st = None" and "0 < n"
    and "fst (doInitialize env (snd (initializeCalls n st))) = out" and "out \<noteq> Unsettled"
  shows "fst (initializeCalls n st) = StartedFlow (started st) # replicate (n - 1) (JoinedFlow (started st))
       \<and> started (snd (initializeCalls n st)) = started st + 1
       \<and> trace (snd (initializeCalls n st)) = trace st
       \<and> list_all (\<lambda>c. callerOutcome (settle env (snd (initializeCalls n st))) c = out) (fst (initializeCalls n st))
       \<and> started (settle env (snd (initializeCalls n st))) = started st + 1
       \<and> fetchCount DeviceCode (settle env (snd (initializeCalls n st))) \<le> fetchCount DeviceCode st + 1
       \<and> saveCount (settle env (snd (initializeCalls n st))) \<le> saveCount st + 1
       \<and> initializePromise (settle env (snd (initializeCalls n st))) = None
       \<and> isInitialized (settle env (snd (initializeCalls n st))) = (out = Resolved ())"
proof -
  define p where "p = started st"
  define st1 where "st1 = st\<lparr>initializePromise := Some (started st), started := started st + 1\<rparr>"
  have calls: "initializeCalls n st = (StartedFlow p # replicate (n - 1) (JoinedFlow p), st1)"
    unfolding p_def st1_def using assms(1-3) by (rule initializeCalls_first)
  have st1: "initializePromise st1 = Some p" "started st1 = started st + 1" "trace st1 = trace st"
    "isInitialized st1 = False"
    "fetchCount DeviceCode st1 = fetchCount DeviceCode st" "saveCount st1 = saveCount st"
    using assms(1) by (simp_all add: st1_def p_def fetchCount_def saveCount_def)
  obtain st2 where run: "doInitialize env st1 = (out, st2)"
    using assms(4) calls by (cases "doInitialize env st1") simp
  have fp: "initFootprint 1 1 st1 st2" using run by (rule doInitialize_footprint)
  have fields: "started st2 = started st + 1" "isInitialized st2 = False"
    "fetchCount DeviceCode st2 \<le> fetchCount DeviceCode st + 1" "saveCount st2 \<le> saveCount st + 1"
    using fp st1 by (simp_all add: initFootprint_def)
  have settle_eq: "settle env st1 =
     (case out of
        Resolved u \<Rightarrow> st2\<lparr>isInitialized := True, initializePromise := None, settled := (settled st2)(p := Resolved ())\<rparr>
      | Rejected e \<Rightarrow> st2\<lparr>initializePromise := None, settled := (settled st2)(p := Rejected e)\<rparr>
      | Unsettled \<Rightarrow> st2)"
    using run st1(1) by (simp add: settle_def split: outcome.splits)
  have outc: "settled (settle env st1) p = out"
    using assms(5) by (cases out) (simp_all add: settle_eq)
  have rest: "started (settle env st1) = started st + 1"
    "fetchCount DeviceCode (settle env st1) \<le> fetchCount DeviceCode st + 1"
    "saveCount (settle env st1) \<le> saveCount st + 1"
    "initializePromise (settle env st1) = None"
    "isInitialized (settle env st1) = (out = Resolved ())"
    using assms(5) fields by (cases out; simp add: settle_eq fetchCount_def saveCount_def)+
  have "list_all (\<lambda>c. callerOutcome (settle env st1) c = out) (StartedFlow p # replicate (n - 1) (JoinedFlow p))"
    using outc by (simp add: callerOutcome_def list_all_iff)
  with rest st1 show ?thesis by (simp add: calls p_def)
qed

theorem initialize_single_flight_witness:
  "fst (initializeCalls 3 exampleState) = [StartedFlow 0, JoinedFlow 0, JoinedFlow 0]
   \<and> started (snd (initializeCalls 3 exampleState)) = 1
   \<and> list_all (\<lambda>c. callerOutcome (settle exampleEnv (snd (initializeCalls 3 exampleState))) c = Resolved ())
        (fst (initializeCalls 3 exampleState))
   \<and> fetchCount DeviceCode (settle exampleEnv (snd (initializeCalls 3 exampleState))) \<le> 1
   \<and> saveCount (settle exampleEnv (snd (initializeCalls 3 exampleState))) \<le> 1
   \<and> isInitialized (settle exampleEnv (snd (initializeCalls 3 exampleState)))"
proof -
  have a: "\<not> isInitialized exampleState" "initializePromise exampleState = None" "0 < (3::nat)"
    by (simp_all add: exampleState_def newManager_def)
  have b: "fst (doInitialize exampleEnv (snd (initializeCalls 3 exampleState))) = Resolved ()"
    by (simp add: numeral_3_eq_3 initialize_def exampleState_def exampleEnv_def exampleToken_def
        example_defs doInitialize_def ensurePaths_def await_def setupGitHubToken_def
        readGithubToken_def trim_def whiteSpace_def stripLeading.simps oauthFlow_def verifyGitHubUser_def
        setupCopilotToken_def getCopilotTokenFromAPI_def storeCopilotToken_def
        setupAutoRefresh_def setTimeout_def meanwhile_def Let_def)
  have c: "Resolved () \<noteq> (Unsettled :: unit outcome)" by simp
  have d: "started exampleState = 0" "fetchCount DeviceCode exampleState = 0" "saveCount exampleState = 0"
    by (simp_all add: exampleState_def newManager_def fetchCount_def saveCount_def)
  have e: "replicate 2 (JoinedFlow 0) = [JoinedFlow 0, JoinedFlow 0]"
    by (simp add: numeral_2_eq_2)
  show ?thesis
    using initialize_single_flight [OF a b c] d e by auto
qed



text \<open>
  Claim C7. Let a poll loop run \<open>k\<close> iterations uncancelled on non-resolving replies,
  with \<open>k\<close> below the attempt bound, so that an iteration \<open>k + 1\<close> follows, and let
  \<^verbatim>\<open>destroy()\<close> run after iteration \<open>k\<close> has received its reply, while the loop sleeps
  before iteration \<open>k + 1\<close>. Then the poll fails with the cancellation error, and it has
  issued exactly the \<open>k\<close> polls of the first \<open>k\<close> iterations: iteration \<open>k + 1\<close> checks the
  flag before its fetch and issues none, whatever replies would have followed. (Here
  \<open>k\<close> is \<open>length pre + 1\<close>.)
\<close>

theorem cancellation_checked_before_fetch:
  assumes "\<not> pollingCancelled st" and "quietPending pre" and "nonResolving r"
    and "js_less (int (length pre) + 1) (maxAttempts dc)"
  shows "fst (pollAccessToken dc st (pre @ (r, True) # rest)) = Rejected PollingCancelled
       \<and> fetchCount AccessToken (snd (pollAccessToken dc st (pre @ (r, True) # rest)))
           = fetchCount AccessToken st + length pre + 1"
  using pollLoop_cancel_between [of st pre r 0 "maxAttempts dc" "sleepDuration dc" rest] assms
  by (simp add: pollAccessToken_def)

theorem cancellation_checked_before_fetch_witness:
  "fst (pollAccessToken exampleCode (newManager None False)
          ([(pendingReply, False)] @ (slowDownReply, True) # [(tokenReply, False)]))
     = Rejected PollingCancelled
   \<and> fetchCount AccessToken (snd (pollAccessToken exampleCode (newManager None False)
          ([(pendingReply, False)] @ (slowDownReply, True) # [(tokenReply, False)])))
     = 2"
proof -
  have c: "\<not> pollingCancelled (newManager None False)" "fetchCount AccessToken (newManager None False) = 0"
    by (simp_all add: newManager_def fetchCount_def)
  have q: "quietPending [(pendingReply, False)]" "nonResolving slowDownReply"
    by (simp_all add: pendingReply_def slowDownReply_def)
  have b: "js_less (int (length [(pendingReply, False)]) + 1) (maxAttempts exampleCode)"
    by (simp add: exampleCode_def maxAttempts_def ceil_div_def)
  show ?thesis
    using cancellation_checked_before_fetch [OF c(1) q b, of "[(tokenReply, False)]"] c(2)
    by simp
qed

lemmas run_defs = initialize_def exampleState_def exampleEnv_def exampleToken_def
  example_defs doInitialize_def ensurePaths_def await_def setupGitHubToken_def
  readGithubToken_def trim_def whiteSpace_def stripLeading.simps oauthFlow_def verifyGitHubUser_def
  setupCopilotToken_def getCopilotTokenFromAPI_def storeCopilotToken_def
  setupAutoRefresh_def setTimeout_def settle_def interrupted_def meanwhile_def nodeDelay_def Let_def

lemma readyState_fields:
  "timers readyState = [(0, 1440000)]" "refreshTimeout readyState = Some 0"
  "githubToken readyState = Some ''gho_1''" "copilotToken readyState = Some ''tid=1''"
  "copilotTokenExpiresAt readyState = Some 1800" "tokenFile readyState = Some ''gho_1''"
  "clock readyState = 0" "nextHandle readyState = 1" "isInitialized readyState"
  "pollingCancelled readyState = False"
  "trace readyState = [Fetch User, WriteFile [], Fetch DeviceCode, Fetch AccessToken, Sleep 6000,
     Fetch AccessToken, WriteFile ''gho_1'', Fetch User, Fetch CopilotToken, SetTimeout 0 1440000]"
  by (simp_all add: readyState_def run_defs)

section \<open>The refresh timer: claims\<close>

text \<open>
  Claim C3, as stated, fails: a refresh is to fire at \<^verbatim>\<open>max(0, refresh_in - 60)\<close> seconds,
  so at delay 0 when \<^verbatim>\<open>refresh_in\<close> is at most 60. For \<^verbatim>\<open>refresh_in = 30\<close> setupAutoRefresh
  leaves the state as it is: there is no pending timer, and no \<^verbatim>\<open>setTimeout\<close> with delay 0
  was called.
\<close>

theorem short_refresh_in_arms_no_timer:
  "setupAutoRefresh shortLivedToken (newManager None False) = newManager None False
   \<and> timers (setupAutoRefresh shortLivedToken (newManager None False)) = []
   \<and> SetTimeout 0 (max 0 (refresh_in shortLivedToken - 60) * 1000)
        \<notin> set (trace (setupAutoRefresh shortLivedToken (newManager None False)))"
  by (simp add: setupAutoRefresh_def shortLivedToken_def newManager_def)

text \<open>
  Claim C3, amended. For a service-token response with \<^verbatim>\<open>refresh_in\<close> at most 60,
  setupAutoRefresh arms nothing and changes nothing (the guard \<^verbatim>\<open>refreshInterval > 0\<close>), and
  no refresh ever fires. For \<^verbatim>\<open>refresh_in\<close> above 60 it calls \<^verbatim>\<open>setTimeout\<close> once with the
  delay \<^verbatim>\<open>(refresh_in - 60) * 1000\<close> ms and keeps the handle. The timer is due that long
  from now when \<^verbatim>\<open>refresh_in\<close> is at most 2147543; above that the delay exceeds the
  2147483647 ms a Node.js timer can hold, Node.js sets it to 1 ms, and the timer is due 1 ms
  from now. On a manager with a GitHub token and no other pending timer, the refresh (one
  call of the exchange endpoint) has fired at a time \<open>t\<close> exactly when \<^verbatim>\<open>refresh_in\<close> is above
  60 and \<open>t\<close> has reached that due time.
\<close>

theorem setupAutoRefresh_schedule:
  "(refresh_in tr \<le> 60 \<longrightarrow> setupAutoRefresh tr st = st)
   \<and> (60 < refresh_in tr \<longrightarrow>
        timers (setupAutoRefresh tr st) =
          timers st @ [(nextHandle st,
                        clock st + (if refresh_in tr \<le> 2147543 then (refresh_in tr - 60) * 1000 else 1))]
        \<and> refreshTimeout (setupAutoRefresh tr st) = Some (nextHandle st)
        \<and> trace (setupAutoRefresh tr st) =
            trace st @ [SetTimeout (nextHandle st) ((refresh_in tr - 60) * 1000)])
   \<and> (timers st = [] \<and> truthy (githubToken st) \<longrightarrow>
        fetches (advanceTime t [] (setupAutoRefresh tr st)) =
          fetches st @
            (if 60 < refresh_in tr
                \<and> clock st + (if refresh_in tr \<le> 2147543 then (refresh_in tr - 60) * 1000 else 1) \<le> t
             then [Fetch CopilotToken] else []))
   \<and> (timers st = [] \<and> refresh_in tr \<le> 60 \<longrightarrow>
        fetches (advanceTime t rs (setupAutoRefresh tr st)) = fetches st)"
proof -
  have none: "setupAutoRefresh tr st = st" if "refresh_in tr \<le> 60"
    using that by (simp add: setupAutoRefresh_def)
  have armed: "setupAutoRefresh tr st =
      st\<lparr>timers := timers st @ [(nextHandle st,
                clock st + (if refresh_in tr \<le> 2147543 then (refresh_in tr - 60) * 1000 else 1))],
         nextHandle := nextHandle st + 1,
         refreshTimeout := Some (nextHandle st),
         trace := trace st @ [SetTimeout (nextHandle st) ((refresh_in tr - 60) * 1000)]\<rparr>"
    if "60 < refresh_in tr"
    using that by (simp add: setupAutoRefresh_def setTimeout_def nodeDelay_def emit_def Let_def)
  have fires: "fetches (advanceTime t [] (setupAutoRefresh tr st)) =
          fetches st @
            (if 60 < refresh_in tr
                \<and> clock st + (if refresh_in tr \<le> 2147543 then (refresh_in tr - 60) * 1000 else 1) \<le> t
             then [Fetch CopilotToken] else [])"
    if "timers st = []" "truthy (githubToken st)"
  proof (cases "60 < refresh_in tr")
    case True
    show ?thesis using that True
      by (simp add: armed [OF True] fire_def emit_def fetches_def)
  next
    case False
    then show ?thesis using that by (simp add: none fetches_def)
  qed
  have quiet: "fetches (advanceTime t rs (setupAutoRefresh tr st)) = fetches st"
    if "timers st = []" "refresh_in tr \<le> 60"
    using that by (cases rs) (simp_all add: none fetches_def)
  show ?thesis using none armed fires quiet by simp
qed

theorem setupAutoRefresh_schedule_witness:
  "timers (setupAutoRefresh exampleToken (newManager (Some ''gho_1'') False)) = [(0, 1440000)]
   \<and> fetches (advanceTime 1439999 [] (setupAutoRefresh exampleToken ((newManager None False)\<lparr>githubToken := Some ''gho_1''\<rparr>))) = []
   \<and> fetches (advanceTime 1440000 [] (setupAutoRefresh exampleToken ((newManager None False)\<lparr>githubToken := Some ''gho_1''\<rparr>)))
       = [Fetch CopilotToken]
   \<and> timers (setupAutoRefresh farToken (newManager None False)) = [(0, 1)]
   \<and> setupAutoRefresh shortLivedToken (newManager None False) = newManager None False
   \<and> fetches (advanceTime 1440000 [Response True (Some renewedToken)] (setupAutoRefresh shortLivedToken (newManager None False))) = []"
proof -
  let ?st = "(newManager None False)\<lparr>githubToken := Some ''gho_1''\<rparr>"
  have a: "timers ?st = []" "truthy (githubToken ?st)" "fetches ?st = []" "clock ?st = 0"
    "timers (newManager None False) = []" "fetches (newManager None False) = []"
    "timers (newManager (Some ''gho_1'') False) = []" "clock (newManager (Some ''gho_1'') False) = 0"
    "nextHandle (newManager (Some ''gho_1'') False) = 0"
    "nextHandle (newManager None False) = 0" "clock (newManager None False) = 0"
    by (simp_all add: newManager_def fetches_def)
  have b: "refresh_in exampleToken = 1500" "refresh_in shortLivedToken = 30" "refresh_in farToken = 2147544"
    by (simp_all add: exampleToken_def shortLivedToken_def farToken_def)
  show ?thesis
    using setupAutoRefresh_schedule [where tr = exampleToken and st = "newManager (Some ''gho_1'') False"
        and t = 0 and rs = "[]"]
      setupAutoRefresh_schedule [where tr = exampleToken and st = ?st and t = 1439999 and rs = "[]"]
      setupAutoRefresh_schedule [where tr = exampleToken and st = ?st and t = 1440000 and rs = "[]"]
      setupAutoRefresh_schedule [where tr = farToken and st = "newManager None False" and t = 0
        and rs = "[]"]
      setupAutoRefresh_schedule [where tr = shortLivedToken and st = "newManager None False"
        and t = 1440000 and rs = "[Response True (Some renewedToken)]"]
      a b
    by (auto simp del: advanceTime.simps)
qed


lemma destroy_timers:
  "refreshScheduled st \<Longrightarrow> timers (destroy st) = []"
proof (cases "refreshTimeout st")
  case None
  assume "refreshScheduled st"
  with None have "timers st = []"
    by (cases "timers st") (auto simp add: refreshScheduled_def)
  with None show ?thesis by (simp add: destroy_eq)
next
  case (Some h)
  assume "refreshScheduled st"
  with Some have "\<forall>x\<in>set (timers st). fst x = h"
    by (auto simp add: refreshScheduled_def list_all_iff)
  then have "filter (\<lambda>(k, due). k \<noteq> h) (timers st) = []"
    by (auto simp add: filter_empty_conv)
  with Some show ?thesis by (simp add: destroy_eq)
qed



section \<open>getCopilotToken: claims\<close>

text \<open>
  Claim C5, as stated, fails at the boundary: with exactly 300 seconds remaining the cached
  token is to be returned unchanged. The code tests \<^verbatim>\<open>now >= expiresAt - buffer\<close>: at
  \<^verbatim>\<open>now = 1500\<close> and \<^verbatim>\<open>expiresAt = 1800\<close> it calls the exchange endpoint and returns the new
  token.
\<close>

theorem refresh_at_exactly_300_seconds:
  "real_of_int 1800 - now (readyState\<lparr>clock := 1500000\<rparr>) = 300
   \<and> copilotTokenExpiresAt (readyState\<lparr>clock := 1500000\<rparr>) = Some 1800
   \<and> copilotToken (readyState\<lparr>clock := 1500000\<rparr>) = Some ''tid=1''
   \<and> fst (getCopilotToken (Response True (Some renewedToken)) (readyState\<lparr>clock := 1500000\<rparr>))
       = Resolved ''tid=2''
   \<and> fetches (snd (getCopilotToken (Response True (Some renewedToken)) (readyState\<lparr>clock := 1500000\<rparr>)))
       = fetches readyState @ [Fetch CopilotToken]"
  by (simp add: now_def readyState_fields getCopilotToken_def getCopilotTokenFromAPI_def
      emit_def storeCopilotToken_def clearTimeout_def setupAutoRefresh_def setTimeout_def
      nodeDelay_def Let_def fetches_def renewedToken_def)

text \<open>
  Claim C5, amended. \<^verbatim>\<open>getCopilotToken()\<close> fails with the token-unavailable error, and does
  nothing else, when the stored Copilot token is null or empty, so whenever none has been
  obtained. Otherwise, with no expiry or expiry 0 stored it returns the cached token. With
  a non-zero expiry and \<^verbatim>\<open>remaining = expiresAt - now\<close>: when \<^verbatim>\<open>remaining > 300\<close> it returns the
  cached token and changes nothing; when \<^verbatim>\<open>remaining <= 300\<close> (and a GitHub token is held)
  it calls the exchange endpoint once. If that call gives no token response the result is
  the refresh error and the stored token and the timers stay; if it gives one, the result
  is the new token, the stored token and expiry are replaced, the timer of the old handle is
  cleared, and a new timer is armed when \<^verbatim>\<open>refresh_in > 60\<close>.
\<close>

theorem getCopilotToken_refresh_window:
  "(\<not> truthy (copilotToken st) \<longrightarrow>
      getCopilotToken r st = (Rejected CopilotTokenNotAvailable, st))
   \<and> (truthy (copilotToken st) \<and> (copilotTokenExpiresAt st = None \<or> copilotTokenExpiresAt st = Some 0) \<longrightarrow>
      getCopilotToken r st = (Resolved (str (copilotToken st)), st))
   \<and> (truthy (copilotToken st) \<and> copilotTokenExpiresAt st = Some e \<and> e \<noteq> 0
        \<and> 300 < real_of_int e - now st \<longrightarrow>
      getCopilotToken r st = (Resolved (str (copilotToken st)), st))
   \<and> (truthy (copilotToken st) \<and> copilotTokenExpiresAt st = Some e \<and> e \<noteq> 0
        \<and> real_of_int e - now st \<le> 300 \<and> truthy (githubToken st) \<longrightarrow>
      fetches (snd (getCopilotToken r st)) = fetches st @ [Fetch CopilotToken]
      \<and> (exchanged r = None \<longrightarrow>
           fst (getCopilotToken r st) = Rejected RefreshFailed
           \<and> copilotToken (snd (getCopilotToken r st)) = copilotToken st
           \<and> timers (snd (getCopilotToken r st)) = timers st)
      \<and> (exchanged r = Some tr \<longrightarrow>
           fst (getCopilotToken r st) = Resolved (token tr)
           \<and> copilotToken (snd (getCopilotToken r st)) = Some (token tr)
           \<and> copilotTokenExpiresAt (snd (getCopilotToken r st)) = Some (expires_at tr)
           \<and> timers (snd (getCopilotToken r st)) =
               (case refreshTimeout st of None \<Rightarrow> timers st
                | Some h \<Rightarrow> filter (\<lambda>(k, due). k \<noteq> h) (timers st))
               @ (if 60 < refresh_in tr
                  then [(nextHandle st, clock st + nodeDelay ((refresh_in tr - 60) * 1000))] else [])))"
proof -
  have unavailable: "getCopilotToken r st = (Rejected CopilotTokenNotAvailable, st)"
    if "\<not> truthy (copilotToken st)"
    using that by (simp add: getCopilotToken_def)
  have no_expiry: "getCopilotToken r st = (Resolved (str (copilotToken st)), st)"
    if "truthy (copilotToken st)" "copilotTokenExpiresAt st = None \<or> copilotTokenExpiresAt st = Some 0"
    using that by (auto simp add: getCopilotToken_def)
  have cached: "getCopilotToken r st = (Resolved (str (copilotToken st)), st)"
    if "truthy (copilotToken st)" "copilotTokenExpiresAt st = Some e" "e \<noteq> 0" "300 < real_of_int e - now st"
    using that by (simp add: getCopilotToken_def)
  have stale: "fetches (snd (getCopilotToken r st)) = fetches st @ [Fetch CopilotToken]
      \<and> (exchanged r = None \<longrightarrow>
           fst (getCopilotToken r st) = Rejected RefreshFailed
           \<and> copilotToken (snd (getCopilotToken r st)) = copilotToken st
           \<and> timers (snd (getCopilotToken r st)) = timers st)
      \<and> (exchanged r = Some tr \<longrightarrow>
           fst (getCopilotToken r st) = Resolved (token tr)
           \<and> copilotToken (snd (getCopilotToken r st)) = Some (token tr)
           \<and> copilotTokenExpiresAt (snd (getCopilotToken r st)) = Some (expires_at tr)
           \<and> timers (snd (getCopilotToken r st)) =
               (case refreshTimeout st of None \<Rightarrow> timers st
                | Some h \<Rightarrow> filter (\<lambda>(k, due). k \<noteq> h) (timers st))
               @ (if 60 < refresh_in tr
                  then [(nextHandle st, clock st + nodeDelay ((refresh_in tr - 60) * 1000))] else []))"
    if h: "truthy (copilotToken st)" "copilotTokenExpiresAt st = Some e" "e \<noteq> 0"
      "real_of_int e - now st \<le> 300" "truthy (githubToken st)"
  proof -
    have c: "real_of_int e - 5 * 60 \<le> now st" using h(4) by simp
    show ?thesis
    proof (cases r)
      case NetworkFailure
      then show ?thesis using h c
        by (simp add: getCopilotToken_def getCopilotTokenFromAPI_def emit_def fetches_def)
    next
      case (Response ok body)
      show ?thesis
      proof (cases "ok \<and> body \<noteq> None")
        case False
        then show ?thesis using h c Response
          by (cases body) (auto simp add: getCopilotToken_def getCopilotTokenFromAPI_def emit_def fetches_def)
      next
        case True
        then obtain tr' where b: "body = Some tr'" "ok" by auto
        show ?thesis using h c Response b
          by (cases "refreshTimeout st")
             (simp_all add: getCopilotToken_def getCopilotTokenFromAPI_def emit_def fetches_def
                storeCopilotToken_def clearTimeout_def setupAutoRefresh_def setTimeout_def Let_def)
      qed
    qed
  qed
  show ?thesis using unavailable no_expiry cached stale by blast
qed

theorem getCopilotToken_refresh_window_witness:
  "getCopilotToken (Response True (Some renewedToken)) (newManager None False)
     = (Rejected CopilotTokenNotAvailable, newManager None False)
   \<and> getCopilotToken (Response True (Some renewedToken)) (readyState\<lparr>clock := 1499999\<rparr>)
     = (Resolved ''tid=1'', readyState\<lparr>clock := 1499999\<rparr>)
   \<and> fst (getCopilotToken (Response True (Some renewedToken)) (readyState\<lparr>clock := 1500000\<rparr>))
     = Resolved ''tid=2''
   \<and> timers (snd (getCopilotToken (Response True (Some renewedToken)) (readyState\<lparr>clock := 1500000\<rparr>)))
     = [(1, 2940000)]
   \<and> fst (getCopilotToken NetworkFailure (readyState\<lparr>clock := 1500000\<rparr>)) = Rejected RefreshFailed"
proof -
  have a: "\<not> truthy (copilotToken (newManager None False))" by (simp add: newManager_def)
  have b: "truthy (copilotToken (readyState\<lparr>clock := 1499999\<rparr>))"
    "copilotTokenExpiresAt (readyState\<lparr>clock := 1499999\<rparr>) = Some 1800" "(1800::int) \<noteq> 0"
    "300 < real_of_int 1800 - now (readyState\<lparr>clock := 1499999\<rparr>)"
    by (simp_all add: readyState_fields now_def)
  have c: "truthy (copilotToken (readyState\<lparr>clock := 1500000\<rparr>))"
    "copilotTokenExpiresAt (readyState\<lparr>clock := 1500000\<rparr>) = Some 1800"
    "real_of_int 1800 - now (readyState\<lparr>clock := 1500000\<rparr>) \<le> 300"
    "truthy (githubToken (readyState\<lparr>clock := 1500000\<rparr>))"
    by (simp_all add: readyState_fields now_def)
  have d: "exchanged (Response True (Some renewedToken)) = Some renewedToken"
    "exchanged NetworkFailure = None" by simp_all
  show ?thesis
    using getCopilotToken_refresh_window
            [of "newManager None False" "Response True (Some renewedToken)" 1800 renewedToken]
          getCopilotToken_refresh_window
            [of "readyState\<lparr>clock := 1499999\<rparr>" "Response True (Some renewedToken)" 1800 renewedToken]
          getCopilotToken_refresh_window
            [of "readyState\<lparr>clock := 1500000\<rparr>" "Response True (Some renewedToken)" 1800 renewedToken]
          getCopilotToken_refresh_window
            [of "readyState\<lparr>clock := 1500000\<rparr>" NetworkFailure 1800 renewedToken]
          a b c d
    by (simp add: readyState_fields renewedToken_def nodeDelay_def)
qed

section \<open>setupGitHubToken: claims\<close>

lemma readGithubToken_nonempty: "readGithubToken st = Some saved \<Longrightarrow> saved \<noteq> []"
  by (auto simp add: readGithubToken_def split: option.splits if_splits)

lemma readGithubToken_flag: "readGithubToken (st\<lparr>pollingCancelled := b\<rparr>) = readGithubToken st"
  by (simp add: readGithubToken_def)

lemma fetchUser_fails:
  "\<not> verifies r \<Longrightarrow> \<exists>e. fetchUser r st = (Rejected e, emit [Fetch User] st)"
  by (cases r rule: verifies.cases) auto

lemma fetchUser_succeeds:
  "verifies r \<Longrightarrow> fetchUser r st = (Resolved (), emit [Fetch User] st)"
  by (cases r rule: verifies.cases) auto

lemma fetchUser_state: "snd (fetchUser r st) = emit [Fetch User] st"
  by (cases r rule: verifies.cases) auto

lemma pollLoop_deviceCodes:
  "fetchCount DeviceCode (snd (pollLoop sd mx a st steps)) = fetchCount DeviceCode st"
proof (induction steps arbitrary: a st)
  case Nil
  then show ?case by (simp add: fetchCount_emit)
next
  case (Cons step steps)
  obtain r d where step: "step = (r, d)" by (cases step)
  show ?case
  proof (cases "handleReply sd r")
    case (SleepThenContinue ms)
    then show ?thesis
      using Cons.IH [of "a + 1" "interrupted d (emit [Fetch AccessToken, Sleep ms] st)"]
      by (simp add: step fetchCount_interrupted fetchCount_emit)
  next
    case (Return tok)
    then show ?thesis by (simp add: step fetchCount_interrupted fetchCount_emit)
  next
    case (Throw e)
    then show ?thesis by (simp add: step fetchCount_interrupted fetchCount_emit)
  qed
qed

lemma writeGithubToken_deviceCodes:
  "fetchCount DeviceCode (snd (writeGithubToken c fr st)) = fetchCount DeviceCode st"
  by (cases fr) (simp_all add: emit_def fetchCount_def)

lemma verifyGitHubUser_deviceCodes:
  "fetchCount DeviceCode (snd (verifyGitHubUser r st)) = fetchCount DeviceCode st"
  by (simp add: verifyGitHubUser_def fetchUser_state fetchCount_emit)

lemma getDeviceCode_state: "snd (getDeviceCode r st) = emit [Fetch DeviceCode] st"
  by (cases r) (auto split: option.splits)

lemma fst_meanwhile: "fst (meanwhile d m) = fst m"
  by (cases m) (simp add: meanwhile_def)

lemma snd_meanwhile: "snd (meanwhile d m) = interrupted d (snd m)"
  by (cases m) (simp add: meanwhile_def)

lemma await_deviceCodes:
  assumes "fetchCount DeviceCode (snd m) = n"
    and "\<And>x s. m = (Resolved x, s) \<Longrightarrow> fetchCount DeviceCode (snd (f x s)) = n"
  shows "fetchCount DeviceCode (snd (await m f)) = n"
proof (cases m)
  case (Pair out s)
  with assms show ?thesis by (cases out) (simp_all add: await_def)
qed

lemma await_outcome:
  assumes "fst m \<noteq> Rejected e" and "\<And>x s. m = (Resolved x, s) \<Longrightarrow> fst (f x s) \<noteq> Rejected e"
  shows "fst (await m f) \<noteq> Rejected e"
proof (cases m)
  case (Pair out s)
  with assms show ?thesis by (cases out) (simp_all add: await_def)
qed

lemma oauthFlow_deviceCodes:
  "fetchCount DeviceCode (snd (oauthFlow env st)) = fetchCount DeviceCode st + 1"
  unfolding oauthFlow_def
proof (intro await_deviceCodes)
  show "fetchCount DeviceCode
          (snd (meanwhile (destroyDuringDeviceCode env) (getDeviceCode (deviceCodeReply env) st)))
        = fetchCount DeviceCode st + 1"
    by (simp add: snd_meanwhile getDeviceCode_state fetchCount_interrupted fetchCount_emit)
next
  fix dc st1
  assume "meanwhile (destroyDuringDeviceCode env) (getDeviceCode (deviceCodeReply env) st)
          = (Resolved dc, st1)"
  then have "st1 = interrupted (destroyDuringDeviceCode env) (emit [Fetch DeviceCode] st)"
    using snd_meanwhile [of "destroyDuringDeviceCode env" "getDeviceCode (deviceCodeReply env) st"]
    by (simp add: getDeviceCode_state)
  then have c1: "fetchCount DeviceCode st1 = fetchCount DeviceCode st + 1"
    by (simp add: fetchCount_interrupted fetchCount_emit)
  show "fetchCount DeviceCode (snd (pollAccessToken dc st1 (pollSteps env)))
        = fetchCount DeviceCode st + 1"
    using c1 by (simp add: pollAccessToken_def pollLoop_deviceCodes)
  fix tok st2
  assume "pollAccessToken dc st1 (pollSteps env) = (Resolved tok, st2)"
  then have c2: "fetchCount DeviceCode st2 = fetchCount DeviceCode st + 1"
    using c1 pollLoop_deviceCodes [of "sleepDuration dc" "maxAttempts dc" 0 st1 "pollSteps env"]
    by (simp add: pollAccessToken_def)
  show "fetchCount DeviceCode
          (snd (meanwhile (destroyDuringSave env) (writeGithubToken tok (saveReply env) st2)))
        = fetchCount DeviceCode st + 1"
    using c2 by (simp add: snd_meanwhile fetchCount_interrupted writeGithubToken_deviceCodes)
  fix u st3
  assume "meanwhile (destroyDuringSave env) (writeGithubToken tok (saveReply env) st2)
          = (Resolved u, st3)"
  then have "st3 = interrupted (destroyDuringSave env) (snd (writeGithubToken tok (saveReply env) st2))"
    using snd_meanwhile [of "destroyDuringSave env" "writeGithubToken tok (saveReply env) st2"]
    by simp
  then have c3: "fetchCount DeviceCode st3 = fetchCount DeviceCode st + 1"
    using c2 by (simp add: fetchCount_interrupted writeGithubToken_deviceCodes)
  have "fetchCount DeviceCode (st3\<lparr>githubToken := Some tok\<rparr>) = fetchCount DeviceCode st + 1"
    using c3 by (simp add: fetchCount_def)
  then show "fetchCount DeviceCode
          (snd (meanwhile (destroyDuringNewVerify env)
                 (verifyGitHubUser (userReply env) (st3\<lparr>githubToken := Some tok\<rparr>))))
        = fetchCount DeviceCode st + 1"
    by (simp add: snd_meanwhile fetchCount_interrupted verifyGitHubUser_deviceCodes)
qed

lemma oauthFlow_success:
  assumes dc: "deviceCodeReply env = Response True (Some dc)"
    and poll: "fst (pollAccessToken dc st0 (pollSteps env)) = Resolved tok"
    and flag: "pollingCancelled st0 = (pollingCancelled st \<or> destroyDuringDeviceCode env)"
    and save: "saveReply env = Written"
  shows "tokenFile (snd (oauthFlow env st)) = Some tok"
    and "githubToken (snd (oauthFlow env st)) = Some tok"
    and "tok \<noteq> []"
    and "verifies (userReply env) \<Longrightarrow> fst (oauthFlow env st) = Resolved ()"
proof -
  let ?s1 = "interrupted (destroyDuringDeviceCode env) (emit [Fetch DeviceCode] st)"
  obtain o2 st2 where p: "pollAccessToken dc ?s1 (pollSteps env) = (o2, st2)" by force
  have "fst (pollAccessToken dc ?s1 (pollSteps env)) = fst (pollAccessToken dc st0 (pollSteps env))"
    unfolding pollAccessToken_def using flag
    by (intro pollLoop_outcome_flag_only) (auto simp add: pollingCancelled_interrupted pollingCancelled_emit)
  with p poll have o2: "o2 = Resolved tok" by simp
  show "tok \<noteq> []"
    using poll pollLoop_token_nonempty by (simp add: pollAccessToken_def)
  then have tr: "truthy (Some tok)" by simp
  let ?s3 = "(interrupted (destroyDuringSave env) (emit [WriteFile tok] (st2\<lparr>tokenFile := Some tok\<rparr>)))
               \<lparr>githubToken := Some tok\<rparr>"
  have flow: "oauthFlow env st = meanwhile (destroyDuringNewVerify env) (fetchUser (userReply env) ?s3)"
    using dc p o2 save tr by (simp add: oauthFlow_def await_def meanwhile_def verifyGitHubUser_def)
  have st: "snd (oauthFlow env st) = interrupted (destroyDuringNewVerify env) (emit [Fetch User] ?s3)"
    by (simp add: flow snd_meanwhile fetchUser_state)
  show "tokenFile (snd (oauthFlow env st)) = Some tok"
    by (simp add: st credentials_interrupted emit_def)
  show "githubToken (snd (oauthFlow env st)) = Some tok"
    by (simp add: st credentials_interrupted emit_def)
  show "fst (oauthFlow env st) = Resolved ()" if "verifies (userReply env)"
    using that by (simp add: flow fst_meanwhile fetchUser_succeeds)
qed

text \<open>
  Claim C8. Let the token file hold a credential, let its verification fail (the request
  is rejected, the response is not ok, or its body is not JSON), and let the write that
  clears the file succeed. Then setupGitHubToken does not fail there: it goes on as the
  device flow, from the state in which the file is empty and no GitHub token is held in
  memory, and requests exactly one device code. This holds also when \<^verbatim>\<open>destroy()\<close> runs
  while the file is read, the credential verified or the file cleared (first equation);
  when it does not, the device flow starts from the state of the second equation. If the
  device code arrives, the poll loop hands back a token and the write of it succeeds, then the
  file and the memory hold the new token in the end, and the call succeeds when the new
  token verifies.
\<close>

theorem invalid_stored_token_falls_through:
  assumes "readGithubToken st = Some saved" and "\<not> verifies (storedUserReply env)"
    and "clearReply env = Written"
  shows "setupGitHubToken env st =
           oauthFlow env
             ((interrupted (destroyDuringClear env) (emit [WriteFile []]
                 (interrupted (destroyDuringVerify env) (emit [Fetch User]
                    (interrupted (destroyDuringRead env) (st\<lparr>pollingCancelled := False\<rparr>))))))
              \<lparr>githubToken := None, tokenFile := Some []\<rparr>)
       \<and> (\<not> destroyDuringRead env \<and> \<not> destroyDuringVerify env \<and> \<not> destroyDuringClear env \<longrightarrow>
            setupGitHubToken env st =
              oauthFlow env (emit [Fetch User, WriteFile []]
                (st\<lparr>pollingCancelled := False, githubToken := None, tokenFile := Some []\<rparr>)))
       \<and> fetchCount DeviceCode (snd (setupGitHubToken env st)) = fetchCount DeviceCode st + 1
       \<and> (deviceCodeReply env = Response True (Some dc)
          \<and> fst (pollAccessToken dc (interrupted (destroyedBeforePolling env)
                   (st\<lparr>pollingCancelled := False\<rparr>)) (pollSteps env)) = Resolved tok
          \<and> saveReply env = Written \<longrightarrow>
            tokenFile (snd (setupGitHubToken env st)) = Some tok
            \<and> githubToken (snd (setupGitHubToken env st)) = Some tok
            \<and> tok \<noteq> []
            \<and> (verifies (userReply env) \<longrightarrow> fst (setupGitHubToken env st) = Resolved ()))"
proof -
  let ?st0 = "st\<lparr>pollingCancelled := False\<rparr>"
  let ?st1 = "interrupted (destroyDuringRead env) ?st0"
  let ?sv = "?st1\<lparr>githubToken := Some saved\<rparr>"
  let ?cleared = "(interrupted (destroyDuringClear env) (emit [WriteFile []]
                 (interrupted (destroyDuringVerify env) (emit [Fetch User]
                    (interrupted (destroyDuringRead env) (st\<lparr>pollingCancelled := False\<rparr>))))))
              \<lparr>githubToken := None, tokenFile := Some []\<rparr>"
  have rd: "readGithubToken ?st0 = Some saved" using assms(1) by (simp add: readGithubToken_flag)
  have ne: "saved \<noteq> []" using assms(1) by (rule readGithubToken_nonempty)
  obtain e where v: "verifyGitHubUser (storedUserReply env) ?sv = (Rejected e, emit [Fetch User] ?sv)"
    using fetchUser_fails [OF assms(2), of ?sv] ne by (auto simp add: verifyGitHubUser_def)
  have "setupGitHubToken env st =
          oauthFlow env ((interrupted (destroyDuringClear env) (emit [WriteFile []]
             ((interrupted (destroyDuringVerify env) (emit [Fetch User] ?sv))\<lparr>tokenFile := Some []\<rparr>)))
                           \<lparr>githubToken := None\<rparr>)"
    using rd v assms(3) by (simp add: setupGitHubToken_def await_def meanwhile_def Let_def)
  also have "(interrupted (destroyDuringClear env) (emit [WriteFile []]
             ((interrupted (destroyDuringVerify env) (emit [Fetch User] ?sv))\<lparr>tokenFile := Some []\<rparr>)))
                \<lparr>githubToken := None\<rparr> = ?cleared"
    by (rule state.equality) (simp_all add: emit_def interrupted_def destroy_eq split: option.splits)
  finally have eq: "setupGitHubToken env st = oauthFlow env ?cleared" .
  have plain: "?cleared = emit [Fetch User, WriteFile []]
                (st\<lparr>pollingCancelled := False, githubToken := None, tokenFile := Some []\<rparr>)"
    if "\<not> destroyDuringRead env" "\<not> destroyDuringVerify env" "\<not> destroyDuringClear env"
    using that by (intro state.equality) (simp_all add: emit_def interrupted_def)
  have count: "fetchCount DeviceCode (snd (setupGitHubToken env st)) = fetchCount DeviceCode st + 1"
    unfolding eq oauthFlow_deviceCodes
    by (simp add: fetchCount_def emit_def interrupted_def destroy_eq split: option.splits)
  have flag: "pollingCancelled (interrupted (destroyedBeforePolling env) ?st0)
              = (pollingCancelled ?cleared \<or> destroyDuringDeviceCode env)"
    by (auto simp add: destroyedBeforePolling_def pollingCancelled_interrupted pollingCancelled_emit)
  have success: "tokenFile (snd (setupGitHubToken env st)) = Some tok
            \<and> githubToken (snd (setupGitHubToken env st)) = Some tok
            \<and> tok \<noteq> []
            \<and> (verifies (userReply env) \<longrightarrow> fst (setupGitHubToken env st) = Resolved ())"
    if "deviceCodeReply env = Response True (Some dc)"
      "fst (pollAccessToken dc (interrupted (destroyedBeforePolling env) ?st0) (pollSteps env)) = Resolved tok"
      "saveReply env = Written"
    unfolding eq using oauthFlow_success [OF that(1) that(2) flag that(3)] by simp
  show ?thesis using eq plain count success by (simp del: emit_def)
qed

theorem invalid_stored_token_falls_through_witness:
  "readGithubToken exampleState = Some ''gho_old''
   \<and> \<not> verifies (storedUserReply exampleEnv)
   \<and> fetchCount DeviceCode (snd (setupGitHubToken exampleEnv exampleState)) = 1
   \<and> tokenFile (snd (setupGitHubToken exampleEnv exampleState)) = Some ''gho_1''
   \<and> githubToken (snd (setupGitHubToken exampleEnv exampleState)) = Some ''gho_1''
   \<and> fst (setupGitHubToken exampleEnv exampleState) = Resolved ()"
proof -
  have a: "readGithubToken exampleState = Some ''gho_old''"
    by (simp add: exampleState_def newManager_def readGithubToken_def trim_def whiteSpace_def
        stripLeading.simps)
  have b: "\<not> verifies (storedUserReply exampleEnv)" "clearReply exampleEnv = Written"
    "deviceCodeReply exampleEnv = Response True (Some exampleCode)" "saveReply exampleEnv = Written"
    "verifies (userReply exampleEnv)"
    by (simp_all add: exampleEnv_def)
  have c: "fst (pollAccessToken exampleCode (interrupted (destroyedBeforePolling exampleEnv)
                   (exampleState\<lparr>pollingCancelled := False\<rparr>)) (pollSteps exampleEnv)) = Resolved ''gho_1''"
    by (simp add: exampleEnv_def exampleState_def destroyedBeforePolling_def example_defs)
  have d: "fetchCount DeviceCode exampleState = 0"
    by (simp add: exampleState_def newManager_def fetchCount_def)
  show ?thesis
    using invalid_stored_token_falls_through [OF a b(1,2), of exampleCode "''gho_1''",
        THEN conjunct2, THEN conjunct2]
      a b c d
    by simp
qed

lemma getDeviceCode_not_cancelled: "fst (getDeviceCode r st) \<noteq> Rejected PollingCancelled"
  by (cases r) (auto split: option.splits)

lemma writeGithubToken_not_cancelled: "fst (writeGithubToken c fr st) \<noteq> Rejected PollingCancelled"
  by (cases fr) simp_all

lemma writeGithubToken_flag: "pollingCancelled (snd (writeGithubToken c fr st)) = pollingCancelled st"
  by (cases fr) (simp_all add: emit_def)

lemma verifyGitHubUser_not_cancelled: "fst (verifyGitHubUser r st) \<noteq> Rejected PollingCancelled"
  by (cases r rule: verifies.cases) (auto simp add: verifyGitHubUser_def)

lemma verifyGitHubUser_flag: "pollingCancelled (snd (verifyGitHubUser r st)) = pollingCancelled st"
  by (simp add: verifyGitHubUser_def fetchUser_state pollingCancelled_emit)

lemma oauthFlow_cancelled_needs_destroy:
  assumes "\<not> pollingCancelled st" and "\<not> destroyDuringDeviceCode env" and "\<not> destroyRuns (pollSteps env)"
  shows "fst (oauthFlow env st) \<noteq> Rejected PollingCancelled"
  unfolding oauthFlow_def
proof (intro await_outcome)
  show "fst (meanwhile (destroyDuringDeviceCode env) (getDeviceCode (deviceCodeReply env) st))
        \<noteq> Rejected PollingCancelled"
    by (simp add: fst_meanwhile getDeviceCode_not_cancelled)
next
  fix dc st1
  assume "meanwhile (destroyDuringDeviceCode env) (getDeviceCode (deviceCodeReply env) st)
          = (Resolved dc, st1)"
  then have "st1 = interrupted (destroyDuringDeviceCode env) (emit [Fetch DeviceCode] st)"
    using snd_meanwhile [of "destroyDuringDeviceCode env" "getDeviceCode (deviceCodeReply env) st"]
    by (simp add: getDeviceCode_state)
  then have f1: "\<not> pollingCancelled st1"
    using assms(1,2) by (simp add: pollingCancelled_interrupted pollingCancelled_emit)
  show "fst (pollAccessToken dc st1 (pollSteps env)) \<noteq> Rejected PollingCancelled"
    unfolding pollAccessToken_def using f1 assms(3) by (rule pollLoop_cancelled_needs_destroy)
  fix tok st2
  show "fst (meanwhile (destroyDuringSave env) (writeGithubToken tok (saveReply env) st2))
        \<noteq> Rejected PollingCancelled"
    by (simp add: fst_meanwhile writeGithubToken_not_cancelled)
  fix u st3
  show "fst (meanwhile (destroyDuringNewVerify env)
               (verifyGitHubUser (userReply env) (st3\<lparr>githubToken := Some tok\<rparr>)))
        \<noteq> Rejected PollingCancelled"
    by (simp add: fst_meanwhile verifyGitHubUser_not_cancelled)
qed

lemma setupGitHubToken_cancelled_needs_destroy:
  assumes "\<not> destroyedBeforePolling env" and "\<not> destroyRuns (pollSteps env)"
  shows "fst (setupGitHubToken env st) \<noteq> Rejected PollingCancelled"
proof -
  from assms(1) have nd: "\<not> destroyDuringRead env" "\<not> destroyDuringVerify env"
    "\<not> destroyDuringClear env" "\<not> destroyDuringDeviceCode env"
    by (simp_all add: destroyedBeforePolling_def)
  let ?st0 = "st\<lparr>pollingCancelled := False\<rparr>"
  show ?thesis
  proof (cases "readGithubToken ?st0")
    case None
    have "fst (oauthFlow env ?st0) \<noteq> Rejected PollingCancelled"
      using nd(4) assms(2) by (intro oauthFlow_cancelled_needs_destroy) simp_all
    with None nd show ?thesis by (simp add: setupGitHubToken_def interrupted_def)
  next
    case (Some savedToken)
    let ?sv = "?st0\<lparr>githubToken := Some savedToken\<rparr>"
    obtain o1 st1 where v: "verifyGitHubUser (storedUserReply env) ?sv = (o1, st1)" by force
    have f1: "\<not> pollingCancelled st1"
      using v verifyGitHubUser_flag [of "storedUserReply env" ?sv] by simp
    show ?thesis
    proof (cases o1)
      case (Resolved u)
      with Some v nd show ?thesis by (simp add: setupGitHubToken_def interrupted_def meanwhile_def)
    next
      case Unsettled
      with Some v nd show ?thesis by (simp add: setupGitHubToken_def interrupted_def meanwhile_def)
    next
      case (Rejected e)
      obtain o2 st2 where w: "writeGithubToken [] (clearReply env) st1 = (o2, st2)" by force
      have f2: "\<not> pollingCancelled st2"
        using w writeGithubToken_flag [of "[]" "clearReply env" st1] f1 by simp
      have o2: "o2 \<noteq> Rejected PollingCancelled"
        using w writeGithubToken_not_cancelled [of "[]" "clearReply env" st1] by simp
      have "fst (oauthFlow env (st2\<lparr>githubToken := None\<rparr>)) \<noteq> Rejected PollingCancelled"
        using nd(4) assms(2) f2 by (intro oauthFlow_cancelled_needs_destroy) simp_all
      then show ?thesis using Some v Rejected w o2 nd
        by (cases o2) (simp_all add: setupGitHubToken_def await_def interrupted_def meanwhile_def)
    qed
  qed
qed

text \<open>
  Claim C10, as stated, fails in its last part: only a \<^verbatim>\<open>destroy()\<close> issued while a poll
  loop is in flight is to cancel the loop. A \<^verbatim>\<open>destroy()\<close> that runs while setupGitHubToken
  still awaits the device code, after the reset of the flag and before the poll loop
  starts, cancels the loop at its first check: no poll is issued, and no \<^verbatim>\<open>destroy()\<close>
  runs during the loop. The same holds of a \<^verbatim>\<open>destroy()\<close> that runs while the stored
  credential is read or verified, or while the file is cleared.
\<close>

theorem destroy_before_poll_loop_cancels_it:
  "\<not> destroyRuns (pollSteps earlyDestroyEnv)
   \<and> fst (setupGitHubToken earlyDestroyEnv exampleState) = Rejected PollingCancelled
   \<and> fetchCount AccessToken (snd (setupGitHubToken earlyDestroyEnv exampleState)) = 0
   \<and> fst (setupGitHubToken (exampleEnv\<lparr>destroyDuringRead := True\<rparr>) exampleState)
       = Rejected PollingCancelled
   \<and> fst (setupGitHubToken (exampleEnv\<lparr>destroyDuringVerify := True\<rparr>) exampleState)
       = Rejected PollingCancelled
   \<and> fst (setupGitHubToken (exampleEnv\<lparr>destroyDuringClear := True\<rparr>) exampleState)
       = Rejected PollingCancelled"
  by (simp add: earlyDestroyEnv_def exampleEnv_def exampleState_def example_defs setupGitHubToken_def
      readGithubToken_def trim_def whiteSpace_def stripLeading.simps verifyGitHubUser_def await_def
      oauthFlow_def interrupted_def meanwhile_def destroy_eq fetchCount_def)

text \<open>
  Claim C10, amended. setupGitHubToken resets the cancellation flag before anything else,
  so its result does not depend on the value the flag had; in particular a \<^verbatim>\<open>destroy()\<close>
  before the call never makes the poll loop of that call fail with the cancellation error.
  Only a \<^verbatim>\<open>destroy()\<close> that runs after that reset and before the poll loop ends can cancel
  it: while the call reads the token file, verifies the stored credential, clears the file
  or requests the device code, or while the poll loop is in flight. A \<^verbatim>\<open>destroy()\<close> that
  runs later, while the new token is saved or verified, cancels nothing.
\<close>

theorem setupGitHubToken_resets_cancellation:
  "setupGitHubToken env (st\<lparr>pollingCancelled := b\<rparr>) = setupGitHubToken env st
   \<and> (\<not> destroyedBeforePolling env \<and> \<not> destroyRuns (pollSteps env) \<longrightarrow>
        fst (setupGitHubToken env (destroy st)) \<noteq> Rejected PollingCancelled
        \<and> fst (setupGitHubToken env st) \<noteq> Rejected PollingCancelled)"
proof -
  have "setupGitHubToken env (st\<lparr>pollingCancelled := b\<rparr>) = setupGitHubToken env st"
    by (simp add: setupGitHubToken_def)
  then show ?thesis using setupGitHubToken_cancelled_needs_destroy by blast
qed

theorem setupGitHubToken_resets_cancellation_witness:
  "pollingCancelled (destroy exampleState)
   \<and> \<not> destroyedBeforePolling lateDestroyEnv \<and> \<not> destroyRuns (pollSteps lateDestroyEnv)
   \<and> destroyDuringSave lateDestroyEnv
   \<and> fst (setupGitHubToken lateDestroyEnv (destroy exampleState)) = Resolved ()
   \<and> fst (setupGitHubToken lateDestroyEnv (destroy exampleState)) \<noteq> Rejected PollingCancelled"
proof -
  have a: "\<not> destroyedBeforePolling lateDestroyEnv" "\<not> destroyRuns (pollSteps lateDestroyEnv)"
    "destroyDuringSave lateDestroyEnv"
    by (simp_all add: lateDestroyEnv_def exampleEnv_def destroyedBeforePolling_def)
  have b: "fst (setupGitHubToken lateDestroyEnv (destroy exampleState)) = Resolved ()"
    by (simp add: lateDestroyEnv_def exampleEnv_def exampleState_def example_defs setupGitHubToken_def
      readGithubToken_def trim_def whiteSpace_def stripLeading.simps verifyGitHubUser_def await_def
      oauthFlow_def interrupted_def meanwhile_def destroy_eq)
  show ?thesis
    using setupGitHubToken_resets_cancellation [where env = lateDestroyEnv and st = exampleState and b = True] a b
    by (simp add: pollingCancelled_destroy)
qed

section \<open>The refresh timer when calls do not overlap\<close>

text \<open>
  The premise of the theorem on \<^verbatim>\<open>destroy()\<close> holds in every state that the constructor,
  \<^verbatim>\<open>initialize()\<close>, the settling of an initialization, \<^verbatim>\<open>getCopilotToken()\<close>, the refresh
  timer and \<^verbatim>\<open>destroy()\<close> produce one after the other.
\<close>

lemma steady_refreshScheduled: "steady st \<Longrightarrow> refreshScheduled st"
  by (simp add: steady_def)

lemma steady_newManager: "steady (newManager provided v)"
  by (simp add: steady_def refreshScheduled_def newManager_def)

lemma refreshScheduled_no_timers: "timers st = [] \<Longrightarrow> refreshScheduled st"
  by (simp add: refreshScheduled_def)

lemma refreshScheduled_arm:
  "timers st = [] \<Longrightarrow> refreshScheduled (setupAutoRefresh tr (storeCopilotToken tr st))"
  by (simp add: setupAutoRefresh_def setTimeout_def emit_def Let_def storeCopilotToken_def
      refreshScheduled_def)

lemma arm_fields:
  "isInitialized (setupAutoRefresh tr (storeCopilotToken tr st)) = isInitialized st"
  "initializePromise (setupAutoRefresh tr (storeCopilotToken tr st)) = initializePromise st"
  by (simp_all add: setupAutoRefresh_def setTimeout_def emit_def Let_def storeCopilotToken_def)

lemma steady_destroy: "steady st \<Longrightarrow> steady (destroy st)"
proof -
  assume s: "steady st"
  then have "timers (destroy st) = []" by (intro destroy_timers) (simp add: steady_def)
  moreover have "isInitialized (destroy st) = isInitialized st"
    "initializePromise (destroy st) = initializePromise st"
    "copilotToken (destroy st) = copilotToken st"
    by (simp_all add: destroy_eq)
  ultimately show ?thesis using s by (simp add: steady_def refreshScheduled_no_timers)
qed

lemma steady_initialize: "steady st \<Longrightarrow> steady (snd (initialize st))"
  by (auto simp add: steady_def initialize_def refreshScheduled_def Let_def split: option.splits)

lemma steady_settle:
  assumes "steady st"
  shows "steady (settle env st)"
proof (cases "initializePromise st")
  case None
  with assms show ?thesis by (simp add: settle_def)
next
  case (Some p)
  with assms have idle: "\<not> isInitialized st" "timers st = []" "\<not> truthy (copilotToken st)"
    by (auto simp add: steady_def)
  obtain out st' where run: "doInitialize env st = (out, st')" by force
  obtain st1 where fp: "footprint 1 1 st st1"
    and alt: "setupCopilotToken (copilotReply env) st1 = (out, st') \<or> (st' = st1 \<and> out \<noteq> Resolved ())"
    using doInitialize_split [OF run] by blast
  from fp idle have st1: "\<not> isInitialized st1" "timers st1 = []" "\<not> truthy (copilotToken st1)"
    "initializePromise st1 = Some p"
    using Some by (simp_all add: footprint_def initFootprint_def)
  have after: "(out = Resolved () \<and> refreshScheduled st')
             \<or> (out \<noteq> Resolved () \<and> \<not> isInitialized st' \<and> timers st' = [] \<and> \<not> truthy (copilotToken st'))"
    using alt
  proof
    assume "setupCopilotToken (copilotReply env) st1 = (out, st')"
    from setupCopilotToken_cases [OF this] show ?thesis
    proof (elim disjE conjE exE)
      fix tr st2
      assume "out = Resolved ()" "footprint 0 0 st1 st2"
        "st' = setupAutoRefresh tr (storeCopilotToken tr st2)"
      then show ?thesis using st1 refreshScheduled_arm [of st2 tr]
        by (simp add: footprint_def)
    next
      assume "out \<noteq> Resolved ()" "footprint 0 0 st1 st'"
      then show ?thesis using st1 by (simp add: footprint_def initFootprint_def)
    qed
  next
    assume "st' = st1 \<and> out \<noteq> Resolved ()"
    then show ?thesis using st1 by simp
  qed
  show ?thesis
  proof (cases out)
    case (Resolved u)
    with after have "refreshScheduled st'" by simp
    then show ?thesis using Some run Resolved
      by (simp add: settle_def steady_def refreshScheduled_def)
  next
    case (Rejected e)
    with after have "\<not> isInitialized st'" "timers st' = []" "\<not> truthy (copilotToken st')" by simp_all
    then show ?thesis using Some run Rejected
      by (simp add: settle_def steady_def refreshScheduled_def)
  next
    case Unsettled
    with after have "\<not> isInitialized st'" "timers st' = []" "\<not> truthy (copilotToken st')" by simp_all
    then show ?thesis using Some run Unsettled
      by (simp add: settle_def steady_def refreshScheduled_def)
  qed
qed

lemma refreshScheduled_cleared:
  "refreshScheduled st \<Longrightarrow> refreshTimeout st = Some h \<Longrightarrow> filter (\<lambda>(k, due). k \<noteq> h) (timers st) = []"
  by (auto simp add: refreshScheduled_def list_all_iff filter_empty_conv)

lemma refreshScheduled_none:
  "refreshScheduled st \<Longrightarrow> refreshTimeout st = None \<Longrightarrow> timers st = []"
  by (cases "timers st") (auto simp add: refreshScheduled_def)

lemma steady_getCopilotToken:
  assumes "steady st"
  shows "steady (snd (getCopilotToken r st))"
proof (cases "getCopilotToken r st = (Resolved (str (copilotToken st)), st)
              \<or> getCopilotToken r st = (Rejected CopilotTokenNotAvailable, st)")
  case True
  with assms show ?thesis by auto
next
  case False
  have tok: "truthy (copilotToken st)"
  proof (rule ccontr)
    assume "\<not> truthy (copilotToken st)"
    then have "getCopilotToken r st = (Rejected CopilotTokenNotAvailable, st)"
      by (simp add: getCopilotToken_def)
    with False show False by simp
  qed
  with assms have init: "isInitialized st" "initializePromise st = None" "refreshScheduled st"
    by (auto simp add: steady_def)
  have "\<exists>e. copilotTokenExpiresAt st = Some e \<and> e \<noteq> 0 \<and> now st \<ge> real_of_int e - 5 * 60"
  proof (rule ccontr)
    assume "\<not> ?thesis"
    then have "getCopilotToken r st = (Resolved (str (copilotToken st)), st)"
      using tok by (cases "copilotTokenExpiresAt st") (auto simp add: getCopilotToken_def)
    with False show False by simp
  qed
  then obtain e where stale: "copilotTokenExpiresAt st = Some e" "e \<noteq> 0"
    "now st \<ge> real_of_int e - 5 * 60" by blast
  obtain o1 st1 where api: "getCopilotTokenFromAPI r st = (o1, st1)" by force
  then have fp: "footprint 0 0 st st1" by (rule getCopilotTokenFromAPI_footprint)
  have st1: "isInitialized st1" "initializePromise st1 = None"
    using fp init by (simp_all add: footprint_def initFootprint_def)
  have same: "timers st1 = timers st" "refreshTimeout st1 = refreshTimeout st"
    using api by (cases r; auto simp add: getCopilotTokenFromAPI_def emit_def split: if_splits option.splits)+
  show ?thesis
  proof (cases o1)
    case (Resolved tr)
    let ?st2 = "storeCopilotToken tr st1"
    let ?st3 = "case refreshTimeout ?st2 of None \<Rightarrow> ?st2 | Some h \<Rightarrow> clearTimeout h ?st2"
    have t3: "timers ?st3 = []"
      using init(3) same refreshScheduled_cleared [of st] refreshScheduled_none [of st]
      by (cases "refreshTimeout st") (simp_all add: storeCopilotToken_def clearTimeout_def emit_def)
    have i3: "isInitialized ?st3" "initializePromise ?st3 = None"
      using st1 by (simp_all add: storeCopilotToken_def clearTimeout_def emit_def split: option.splits)
    have res: "snd (getCopilotToken r st) = setupAutoRefresh tr ?st3"
      using tok stale api Resolved by (simp add: getCopilotToken_def Let_def)
    have "refreshScheduled (setupAutoRefresh tr ?st3)"
      using t3 by (simp add: setupAutoRefresh_def setTimeout_def emit_def Let_def refreshScheduled_def)
    moreover have "isInitialized (setupAutoRefresh tr ?st3)" "initializePromise (setupAutoRefresh tr ?st3) = None"
      using i3 by (simp_all add: setupAutoRefresh_def setTimeout_def emit_def Let_def)
    ultimately show ?thesis by (simp add: res steady_def)
  next
    case (Rejected e')
    then have "snd (getCopilotToken r st) = st1"
      using tok stale api by (simp add: getCopilotToken_def)
    then show ?thesis using st1 same init(3) by (simp add: steady_def refreshScheduled_def)
  next
    case Unsettled
    then have "snd (getCopilotToken r st) = st1"
      using tok stale api by (simp add: getCopilotToken_def)
    then show ?thesis using st1 same init(3) by (simp add: steady_def refreshScheduled_def)
  qed
qed

lemma nextDue_mem: "nextDue t ts = Some x \<Longrightarrow> x \<in> set ts"
  by (induction t ts arbitrary: x rule: nextDue.induct) (auto split: option.splits if_splits)

lemma steady_fire:
  assumes "steady st" and "nextDue t (timers st) = Some (h, due)"
  shows "timers (fire h due st) = []" and "isInitialized (fire h due st)"
    and "initializePromise (fire h due st) = None"
proof -
  have m: "(h, due) \<in> set (timers st)" using assms(2) by (rule nextDue_mem)
  then have ne: "timers st \<noteq> []" by auto
  with assms(1) show "isInitialized (fire h due st)" by (auto simp add: steady_def fire_def)
  with assms(1) show "initializePromise (fire h due st) = None" by (auto simp add: steady_def fire_def)
  have "refreshTimeout st = Some h"
    using assms(1) m by (auto simp add: steady_def refreshScheduled_def list_all_iff)
  then show "timers (fire h due st) = []"
    using assms(1) refreshScheduled_cleared [of st h] by (simp add: steady_def fire_def)
qed

lemma steady_refreshCallback:
  assumes "timers st = []" and "isInitialized st" and "initializePromise st = None"
  shows "steady (refreshCallback r st)"
proof -
  obtain o1 st1 where api: "getCopilotTokenFromAPI r st = (o1, st1)" by force
  then have fp: "footprint 0 0 st st1" by (rule getCopilotTokenFromAPI_footprint)
  then have st1: "timers st1 = []" "isInitialized st1" "initializePromise st1 = None"
    using assms by (simp_all add: footprint_def initFootprint_def)
  show ?thesis
  proof (cases o1)
    case (Resolved tr)
    then have "refreshCallback r st = setupAutoRefresh tr (storeCopilotToken tr st1)"
      using api by (simp add: refreshCallback_def)
    then show ?thesis using st1 refreshScheduled_arm [of st1 tr] arm_fields [of tr st1]
      by (simp add: steady_def)
  next
    case (Rejected e)
    then have "refreshCallback r st = st1" using api by (simp add: refreshCallback_def)
    then show ?thesis using st1 by (simp add: steady_def refreshScheduled_no_timers)
  next
    case Unsettled
    then have "refreshCallback r st = st1" using api by (simp add: refreshCallback_def)
    then show ?thesis using st1 by (simp add: steady_def refreshScheduled_no_timers)
  qed
qed

lemma steady_clock: "steady st \<Longrightarrow> steady (st\<lparr>clock := c\<rparr>)"
  by (simp add: steady_def refreshScheduled_def)

lemma steady_advanceTime: "steady st \<Longrightarrow> steady (advanceTime t rs st)"
proof (induction rs arbitrary: st)
  case Nil
  show ?case
  proof (cases "nextDue t (timers st)")
    case None
    with Nil show ?thesis by (simp add: steady_clock)
  next
    case (Some x)
    obtain h due where x: "x = (h, due)" by (cases x)
    from steady_fire [OF Nil] Some x
    have "steady (fire h due st)" "steady (emit [Fetch CopilotToken] (fire h due st))"
      by (simp_all add: steady_def refreshScheduled_def emit_def)
    with Some x show ?thesis by simp
  qed
next
  case (Cons r rs)
  show ?case
  proof (cases "nextDue t (timers st)")
    case None
    with Cons.prems show ?thesis by (simp add: steady_clock)
  next
    case (Some x)
    obtain h due where x: "x = (h, due)" by (cases x)
    have "steady (refreshCallback r (fire h due st))"
      using steady_fire [OF Cons.prems] Some x by (intro steady_refreshCallback) simp_all
    then have "steady (advanceTime t rs (refreshCallback r (fire h due st)))" by (rule Cons.IH)
    with Some x show ?thesis by simp
  qed
qed

end
